theory Spec2Isabelle
  imports Complex_Main
begin

section \<open>Python values shared by the two scripts\<close>

text \<open>
  An exception is its class name and its message.  Every function of the scripts that can
  raise returns \<open>py_exception + 'a\<close>, with \<open>Inl\<close> for the raised exception.  Only
  subclasses of \<open>Exception\<close> are modelled, so \<open>except Exception\<close> catches every \<open>Inl\<close>.
\<close>

datatype py_exception = Raise (exc_class: string) (exc_msg: string)

definition ebind :: "py_exception + 'a \<Rightarrow> ('a \<Rightarrow> py_exception + 'b) \<Rightarrow> py_exception + 'b" where
  "ebind m f = (case m of Inl e \<Rightarrow> Inl e | Inr x \<Rightarrow> f x)"

text \<open>A \<open>for\<close> loop whose body updates one variable and may raise.\<close>

fun for_each :: "'x list \<Rightarrow> ('s \<Rightarrow> 'x \<Rightarrow> py_exception + 's) \<Rightarrow> 's \<Rightarrow> py_exception + 's" where
  "for_each [] body s = Inr s"
| "for_each (x # xs) body s = ebind (body s x) (for_each xs body)"

text \<open>
  \<open>str.upper\<close> and \<open>str.lower\<close> as they act on ASCII text, through the character
  codes: the letters \<open>a\<close> to \<open>z\<close> are 97 to 122, \<open>A\<close> to \<open>Z\<close> are 65 to 90.  On text
  with other characters Python also maps letters outside ASCII (the sharp s becomes
  \<open>SS\<close>), which these two functions leave as they are: they are \<open>str.upper\<close> and
  \<open>str.lower\<close> on ASCII strings only, and a property that depends on the outcome of a
  case conversion is stated for ASCII symbols.
\<close>

definition upper_code :: "nat \<Rightarrow> nat" where
  "upper_code n = (if 97 \<le> n \<and> n \<le> 122 then n - 32 else n)"

definition lower_code :: "nat \<Rightarrow> nat" where
  "lower_code n = (if 65 \<le> n \<and> n \<le> 90 then n + 32 else n)"

definition upper_char :: "char \<Rightarrow> char" where
  "upper_char c = char_of (upper_code (of_char c))"

definition lower_char :: "char \<Rightarrow> char" where
  "lower_char c = char_of (lower_code (of_char c))"

definition str_upper :: "string \<Rightarrow> string" where
  "str_upper s = map upper_char s"

definition str_lower :: "string \<Rightarrow> string" where
  "str_lower s = map lower_char s"

text \<open>
  A symbol of ASCII characters none of which is a capital letter: what the constructor
  of the analyzer stores when it is given ASCII symbols, such as the four default ones.
\<close>

definition ascii_lower :: "string \<Rightarrow> bool" where
  "ascii_lower s = list_all (\<lambda>c. (of_char c :: nat) < 128 \<and> lower_char c = c) s"

text \<open>\<open>str(n)\<close>, which is what \<open>{i}\<close> in an f-string gives, for a non-negative integer.\<close>

fun str_nat :: "nat \<Rightarrow> string" where
  "str_nat n =
     (if n < 10 then [char_of (48 + n)] else str_nat (n div 10) @ [char_of (48 + n mod 10)])"

declare str_nat.simps [simp del]

text \<open>
  The two columns that the scripts read from a CSV file by name: \<open>trade_date\<close> (absent when
  the file has no such column) and the remaining columns in file order.  All columns of a
  DataFrame have the same length.
\<close>

record ('k, 'a) csv =
  csv_dates :: "'k list option"
  csv_cols :: "(string \<times> 'a list) list"


section \<open>process_futures.py\<close>

text \<open>
  A DataFrame that has a \<open>trade_date\<close> column: the names of the other columns, and the
  rows, each a date with the cells of the other columns in column order.  The type of the
  close prices is any type with a subtraction: the spreads are computed with that
  subtraction, whatever the number representation is.
\<close>

record ('k, 'a) frame =
  cols :: "string list"
  rows :: "('k \<times> 'a list) list"

definition close_name :: "string \<Rightarrow> nat \<Rightarrow> string" where
  "close_name futures_type i = ''close_'' @ futures_type @ str_nat i"

definition spread_name :: "string \<Rightarrow> nat \<Rightarrow> nat \<Rightarrow> string" where
  "spread_name futures_type i j =
     ''price_spread_'' @ futures_type @ str_nat i @ ''_'' @ futures_type @ str_nat j"

definition leg_path :: "string \<Rightarrow> nat \<Rightarrow> string" where
  "leg_path futures_type i = str_upper futures_type @ ''0'' @ str_nat i @ ''.csv''"

text \<open>\<open>df[['trade_date', 'close']].rename(columns={'close': new_name})\<close>\<close>

definition select_close :: "string \<Rightarrow> ('k, 'a) csv \<Rightarrow> py_exception + ('k, 'a) frame" where
  "select_close new_name df =
     (case csv_dates df of
        None \<Rightarrow> Inl (Raise ''KeyError'' ''trade_date'')
      | Some ds \<Rightarrow>
          (case map_of (csv_cols df) ''close'' of
             None \<Rightarrow> Inl (Raise ''KeyError'' ''close'')
           | Some cs \<Rightarrow> Inr \<lparr>cols = [new_name], rows = zip ds (map (\<lambda>c. [c]) cs)\<rparr>))"

text \<open>The loop of lines 20 to 25 over \<open>enumerate([df0, df1, df2, df3])\<close>.\<close>

fun select_all ::
  "string \<Rightarrow> nat \<Rightarrow> ('k, 'a) csv list \<Rightarrow> py_exception + ('k, 'a) frame list" where
  "select_all futures_type i [] = Inr []"
| "select_all futures_type i (df # dfs) =
     ebind (select_close (close_name futures_type i) df) (\<lambda>s.
     ebind (select_all futures_type (Suc i) dfs) (\<lambda>ss. Inr (s # ss)))"

text \<open>
  \<open>pd.merge(l, r, on='trade_date', how='inner')\<close>: one row for every pair of a left row
  and a right row with the same date, in the order of the left rows.  The other columns
  of the two sides have different names here, so none is renamed.
\<close>

definition merge_inner :: "('k, 'a) frame \<Rightarrow> ('k, 'a) frame \<Rightarrow> ('k, 'a) frame" where
  "merge_inner l r =
     \<lparr>cols = cols l @ cols r,
      rows = concat (map (\<lambda>(k, vs). map (\<lambda>(k', ws). (k, vs @ ws))
                                        (filter (\<lambda>(k', ws). k' = k) (rows r))) (rows l))\<rparr>"

fun index_of :: "'b \<Rightarrow> 'b list \<Rightarrow> nat option" where
  "index_of x [] = None"
| "index_of x (y # ys) = (if x = y then Some 0 else map_option Suc (index_of x ys))"

text \<open>\<open>df[name]\<close>, a KeyError when there is no such column.\<close>

definition get_col :: "('k, 'a) frame \<Rightarrow> string \<Rightarrow> py_exception + 'a list" where
  "get_col f name =
     (case index_of name (cols f) of
        None \<Rightarrow> Inl (Raise ''KeyError'' name)
      | Some n \<Rightarrow> Inr (map (\<lambda>(k, vs). vs ! n) (rows f)))"

text \<open>
  \<open>df[name] = values\<close>, for values computed from the columns of \<open>df\<close> itself (one per
  row): an existing column is overwritten in place, a new one is appended.
\<close>

definition set_col :: "('k, 'a) frame \<Rightarrow> string \<Rightarrow> 'a list \<Rightarrow> ('k, 'a) frame" where
  "set_col f name vals =
     (case index_of name (cols f) of
        Some n \<Rightarrow> \<lparr>cols = cols f, rows = map2 (\<lambda>(k, vs) v. (k, vs[n := v])) (rows f) vals\<rparr>
      | None \<Rightarrow> \<lparr>cols = cols f @ [name],
                 rows = map2 (\<lambda>(k, vs) v. (k, vs @ [v])) (rows f) vals\<rparr>)"

text \<open>Line 36: the element-wise difference of two columns, stored under \<open>col_name\<close>.\<close>

definition add_spread ::
  "string \<Rightarrow> nat \<Rightarrow> nat \<Rightarrow> ('k, 'a::minus) frame \<Rightarrow> py_exception + ('k, 'a) frame" where
  "add_spread futures_type i j f =
     ebind (get_col f (close_name futures_type i)) (\<lambda>a.
     ebind (get_col f (close_name futures_type j)) (\<lambda>b.
     Inr (set_col f (spread_name futures_type i j) (map2 (\<lambda>x y. x - y) a b))))"

text \<open>Lines 33 to 36: \<open>for i in range(3): for j in range(i+1, 4)\<close>.\<close>

definition add_spreads ::
  "string \<Rightarrow> ('k, 'a::minus) frame \<Rightarrow> py_exception + ('k, 'a) frame" where
  "add_spreads futures_type f =
     for_each [0..<3] (\<lambda>f i.
       for_each [i + 1..<4] (\<lambda>f j. add_spread futures_type i j f) f) f"

text \<open>
  \<open>pd.to_datetime(column, format='%Y%m%d')\<close>: every cell is parsed, and the call raises
  when one cell does not parse.  The parser of one cell is a parameter.
\<close>

fun to_datetime :: "('k \<Rightarrow> py_exception + 't) \<Rightarrow> 'k list \<Rightarrow> py_exception + 't list" where
  "to_datetime strptime [] = Inr []"
| "to_datetime strptime (k # ks) =
     ebind (strptime k) (\<lambda>t.
     ebind (to_datetime strptime ks) (\<lambda>ts. Inr (t # ts)))"

definition convert_dates ::
  "('k \<Rightarrow> py_exception + 't) \<Rightarrow> ('k, 'a) frame \<Rightarrow> py_exception + ('t, 'a) frame" where
  "convert_dates strptime f =
     ebind (to_datetime strptime (map fst (rows f))) (\<lambda>ts.
     Inr \<lparr>cols = cols f, rows = zip ts (map snd (rows f))\<rparr>)"

text \<open>
  \<open>process_futures_data\<close>.  \<open>read_csv\<close> is the file system as \<open>pd.read_csv\<close> sees it.
\<close>

definition process_futures_data ::
  "(string \<Rightarrow> py_exception + ('k, 'a::minus) csv) \<Rightarrow> ('k \<Rightarrow> py_exception + 't) \<Rightarrow> string
     \<Rightarrow> py_exception + ('t, 'a) frame" where
  "process_futures_data read_csv strptime futures_type =
     ebind (read_csv (leg_path futures_type 0)) (\<lambda>df0.
     ebind (read_csv (leg_path futures_type 1)) (\<lambda>df1.
     ebind (read_csv (leg_path futures_type 2)) (\<lambda>df2.
     ebind (read_csv (leg_path futures_type 3)) (\<lambda>df3.
     ebind (select_all futures_type 0 [df0, df1, df2, df3]) (\<lambda>dfs.
     (case dfs of
        [] \<Rightarrow> Inl (Raise ''IndexError'' ''list index out of range'')
      | d # ds \<Rightarrow>
          ebind (add_spreads futures_type (foldl merge_inner d ds)) (\<lambda>merged_df.
          convert_dates strptime merged_df)))))))"

text \<open>The columns of a frame as \<open>df.columns\<close> lists them.\<close>

definition columns :: "('k, 'a) frame \<Rightarrow> string list" where
  "columns f = ''trade_date'' # cols f"

text \<open>The cell of a row under a column name.\<close>

definition row_value :: "('k, 'a) frame \<Rightarrow> string \<Rightarrow> 'k \<times> 'a list \<Rightarrow> 'a option" where
  "row_value f name r =
     (case index_of name (cols f) of
        None \<Rightarrow> None
      | Some n \<Rightarrow> if n < length (snd r) then Some (snd r ! n) else None)"

text \<open>
  The (trade_date, close) rows of the source file of leg \<open>i\<close>; no rows when the file
  cannot be read or lacks one of the two columns.
\<close>

definition leg_rows ::
  "(string \<Rightarrow> py_exception + ('k, 'a) csv) \<Rightarrow> string \<Rightarrow> nat \<Rightarrow> ('k \<times> 'a) list" where
  "leg_rows read_csv futures_type i =
     (case read_csv (leg_path futures_type i) of
        Inl e \<Rightarrow> []
      | Inr df \<Rightarrow>
          (case csv_dates df of
             None \<Rightarrow> []
           | Some ds \<Rightarrow>
               (case map_of (csv_cols df) ''close'' of None \<Rightarrow> [] | Some cs \<Rightarrow> zip ds cs)))"

text \<open>The leg pairs in the order in which lines 33 and 34 enumerate them.\<close>

definition leg_pairs :: "(nat \<times> nat) list" where
  "leg_pairs = concat (map (\<lambda>i. map (\<lambda>j. (i, j)) [i + 1..<4]) [0..<3])"

text \<open>
  Vocabulary of the proofs: the frame that lines 22 to 24 make of the source file of leg
  \<open>i\<close>, the join of the four of them, and the six differences of a row of four closes.
\<close>

definition leg_frame ::
  "(string \<Rightarrow> py_exception + ('k, 'a) csv) \<Rightarrow> string \<Rightarrow> nat \<Rightarrow> ('k, 'a) frame" where
  "leg_frame read_csv futures_type i =
     \<lparr>cols = [close_name futures_type i],
      rows = map (\<lambda>(d, c). (d, [c])) (leg_rows read_csv futures_type i)\<rparr>"

definition joined ::
  "(string \<Rightarrow> py_exception + ('k, 'a) csv) \<Rightarrow> string \<Rightarrow> ('k, 'a) frame" where
  "joined read_csv futures_type =
     merge_inner
       (merge_inner
          (merge_inner (leg_frame read_csv futures_type 0) (leg_frame read_csv futures_type 1))
          (leg_frame read_csv futures_type 2))
       (leg_frame read_csv futures_type 3)"

definition six :: "'a::minus list \<Rightarrow> 'a list" where
  "six vs = [vs ! 0 - vs ! 1, vs ! 0 - vs ! 2, vs ! 0 - vs ! 3,
             vs ! 1 - vs ! 2, vs ! 1 - vs ! 3, vs ! 2 - vs ! 3]"


text \<open>The column names of a returned table, after \<open>trade_date\<close>.\<close>

definition out_cols :: "string \<Rightarrow> string list" where
  "out_cols ft = [close_name ft 0, close_name ft 1, close_name ft 2, close_name ft 3,
                  spread_name ft 0 1, spread_name ft 0 2, spread_name ft 0 3,
                  spread_name ft 1 2, spread_name ft 1 3, spread_name ft 2 3]"


section \<open>cointegration_analysis.py\<close>

text \<open>
  The cells of a column read from a file are the real numbers they denote, a missing
  value (NaN) being \<open>None\<close>; the script only drops the missing ones and hands the rest
  to \<open>adfuller\<close>.  The numbers that \<open>adfuller\<close> returns are compared with 0.05 and
  formatted, so they are Python floats with their special values: a finite number (the
  real number it denotes, \<open>Finite 0\<close> being \<open>0.0\<close>), the negative zero \<open>-0.0\<close>, NaN, and
  the two infinities.  The script does no arithmetic on them.  The messages that the
  script prints are not modelled.
\<close>

datatype pyfloat = Finite real | NegZero | NaN | PosInf | NegInf

text \<open>\<open>x <= y\<close> on floats: false as soon as one side is NaN; the two zeros are equal.\<close>

fun float_le :: "pyfloat \<Rightarrow> pyfloat \<Rightarrow> bool" where
  "float_le NaN y = False"
| "float_le x NaN = False"
| "float_le NegInf y = True"
| "float_le x PosInf = True"
| "float_le PosInf y = False"
| "float_le x NegInf = False"
| "float_le (Finite a) (Finite b) = (a \<le> b)"
| "float_le (Finite a) NegZero = (a \<le> 0)"
| "float_le NegZero (Finite b) = (0 \<le> b)"
| "float_le NegZero NegZero = True"

text \<open>\<open>math.isfinite\<close>\<close>

fun isfinite :: "pyfloat \<Rightarrow> bool" where
  "isfinite (Finite x) = True"
| "isfinite NegZero = True"
| "isfinite NaN = False"
| "isfinite PosInf = False"
| "isfinite NegInf = False"

text \<open>
  The dictionary of critical values and the tuple that \<open>adfuller\<close> returns
  (\<open>result[0]\<close>, \<open>result[1]\<close> and \<open>result[4]\<close> are read).
\<close>

record crit_values =
  crit_1pct :: pyfloat
  crit_5pct :: pyfloat
  crit_10pct :: pyfloat

record adf_output =
  adfstat :: pyfloat
  pvalue :: pyfloat
  usedlag :: nat
  nobs :: nat
  critvalues :: crit_values
  icbest :: pyfloat

text \<open>The dictionary that \<open>perform_adf_test\<close> returns.\<close>

record adf_result =
  series_name :: string
  adf_statistic :: pyfloat
  p_value :: pyfloat
  critical_values :: crit_values
  is_stationary :: bool

text \<open>
  What the script calls from outside: \<open>os.path.exists\<close>, \<open>pd.read_csv\<close>,
  \<open>pd.to_datetime\<close> on a column, and \<open>adfuller(series, autolag='AIC')\<close>.
\<close>

record ('k, 't) world =
  os_path_exists :: "string \<Rightarrow> bool"
  pd_read_csv :: "string \<Rightarrow> py_exception + ('k, real option) csv"
  pd_to_datetime :: "'k list \<Rightarrow> py_exception + 't list"
  sm_adfuller :: "real list \<Rightarrow> py_exception + adf_output"

text \<open>A Python dictionary: keys in insertion order, a stored key keeps its place.\<close>

fun dict_set :: "('key \<times> 'v) list \<Rightarrow> 'key \<Rightarrow> 'v \<Rightarrow> ('key \<times> 'v) list" where
  "dict_set [] k v = [(k, v)]"
| "dict_set ((k', v') # d) k v = (if k' = k then (k, v) # d else (k', v') # dict_set d k v)"

record analyzer =
  futures_types :: "string list"
  results :: "(string \<times> (string \<times> adf_result) list) list"

text \<open>\<open>__init__\<close>\<close>

definition init :: "string list \<Rightarrow> analyzer" where
  "init fts = \<lparr>futures_types = map str_lower fts, results = []\<rparr>"

text \<open>
  \<open>load_data\<close>.  The message of the FileNotFoundError is shortened to the path it names.
\<close>

definition load_data :: "('k, 't) world \<Rightarrow> string \<Rightarrow> py_exception + ('t, real option) csv" where
  "load_data w futures_type =
     (let file_path = ''data/'' @ str_lower futures_type @ ''_spread.csv'' in
      if \<not> os_path_exists w file_path then Inl (Raise ''FileNotFoundError'' file_path)
      else
        ebind (pd_read_csv w file_path) (\<lambda>df.
        (case csv_dates df of
           None \<Rightarrow> Inl (Raise ''KeyError'' ''trade_date'')
         | Some ds \<Rightarrow>
             ebind (pd_to_datetime w ds) (\<lambda>ts.
             Inr \<lparr>csv_dates = Some ts, csv_cols = csv_cols df\<rparr>))))"

text \<open>\<open>series.dropna()\<close>\<close>

fun dropna :: "'v option list \<Rightarrow> 'v list" where
  "dropna [] = []"
| "dropna (None # xs) = dropna xs"
| "dropna (Some x # xs) = x # dropna xs"

definition perform_adf_test ::
  "(real list \<Rightarrow> py_exception + adf_output) \<Rightarrow> real option list \<Rightarrow> string
     \<Rightarrow> py_exception + adf_result" where
  "perform_adf_test adfuller series name =
     ebind (adfuller (dropna series)) (\<lambda>result.
     Inr \<lparr>series_name = name,
          adf_statistic = adfstat result,
          p_value = pvalue result,
          critical_values = critvalues result,
          is_stationary = float_le (pvalue result) (Finite 0.05)\<rparr>)"

text \<open>\<open>df.columns\<close>, \<open>str.startswith\<close>, \<open>str.split\<close> and the slice \<open>[-2:]\<close>.\<close>

definition csv_columns :: "('k, 'a) csv \<Rightarrow> string list" where
  "csv_columns df =
     (case csv_dates df of None \<Rightarrow> [] | Some ds \<Rightarrow> [''trade_date'']) @ map fst (csv_cols df)"

definition startswith :: "string \<Rightarrow> string \<Rightarrow> bool" where
  "startswith s p = (take (length p) s = p)"

fun split :: "char \<Rightarrow> string \<Rightarrow> string list" where
  "split sep [] = [[]]"
| "split sep (c # cs) =
     (if c = sep then [] # split sep cs
      else (case split sep cs of [] \<Rightarrow> [[c]] | w # ws \<Rightarrow> (c # w) # ws))"

definition last_two :: "'b list \<Rightarrow> 'b list" where
  "last_two xs = drop (length xs - 2) xs"

text \<open>Lines 77 and 78: the pair label of a spread column.\<close>

definition pair_name :: "string \<Rightarrow> py_exception + string" where
  "pair_name col =
     (case last_two (split (CHR ''_'') col) of
        a # b # rest \<Rightarrow> Inr (a @ ''-'' @ b)
      | _ \<Rightarrow> Inl (Raise ''IndexError'' ''list index out of range''))"

text \<open>\<open>df[col]\<close> on a loaded file, for a column other than \<open>trade_date\<close>.\<close>

definition csv_col :: "('k, 'a) csv \<Rightarrow> string \<Rightarrow> py_exception + 'a list" where
  "csv_col df col =
     (case map_of (csv_cols df) col of None \<Rightarrow> Inl (Raise ''KeyError'' col) | Some xs \<Rightarrow> Inr xs)"

text \<open>Lines 77 to 81: the label and the test of one spread column.\<close>

definition test_column ::
  "('k, 't) world \<Rightarrow> ('t, real option) csv \<Rightarrow> string \<Rightarrow> py_exception + string \<times> adf_result" where
  "test_column w df col =
     ebind (pair_name col) (\<lambda>name.
     ebind (csv_col df col) (\<lambda>series.
     ebind (perform_adf_test (sm_adfuller w) series name) (\<lambda>result.
     Inr (name, result))))"

definition spread_cols :: "('k, 'a) csv \<Rightarrow> string list" where
  "spread_cols df = filter (\<lambda>col. startswith col ''price_spread'') (csv_columns df)"

definition analyze_spread_combinations ::
  "('k, 't) world \<Rightarrow> string \<Rightarrow> py_exception + (string \<times> adf_result) list" where
  "analyze_spread_combinations w futures_type =
     ebind (load_data w futures_type) (\<lambda>df.
     for_each (spread_cols df)
       (\<lambda>results col.
          ebind (test_column w df col) (\<lambda>(name, result).
          Inr (dict_set results name result)))
       [])"

text \<open>
  \<open>analyze_all_futures\<close>: the body of the loop is a \<open>try\<close> whose handler only prints.
  The function returns the mapping and stores it in \<open>self.results\<close>.
\<close>

definition analyze_all_futures ::
  "('k, 't) world \<Rightarrow> analyzer
     \<Rightarrow> py_exception + (string \<times> (string \<times> adf_result) list) list \<times> analyzer" where
  "analyze_all_futures w self =
     ebind
       (for_each (futures_types self)
          (\<lambda>all_results ft.
             (case ebind (analyze_spread_combinations w ft) (\<lambda>results.
                     Inr (dict_set all_results (str_upper ft) results)) of
                Inl e \<Rightarrow> Inr all_results
              | Inr all_results' \<Rightarrow> Inr all_results'))
          [])
       (\<lambda>all_results. Inr (all_results, self\<lparr>results := all_results\<rparr>))"

text \<open>
  \<open>f"{x:.4f}"\<close>.  For a finite number: the decimal expansion of \<open>x\<close> rounded to four
  places, exact ties to the even neighbour, with the sign of \<open>x\<close>.  The negative zero
  keeps its sign, and NaN and the infinities are written as words.
\<close>

definition round_half_even :: "real \<Rightarrow> int" where
  "round_half_even x =
     (let f = \<lfloor>x\<rfloor>; d = x - of_int f in
      if d < 1 / 2 then f else if 1 / 2 < d then f + 1 else if even f then f else f + 1)"

definition decimal_4f :: "real \<Rightarrow> string" where
  "decimal_4f x =
     (let n = nat (round_half_even (\<bar>x\<bar> * 10000)) in
      (if x < 0 then ''-'' else []) @ str_nat (n div 10000) @ ''.'' @
      [char_of (48 + n div 1000 mod 10), char_of (48 + n div 100 mod 10),
       char_of (48 + n div 10 mod 10), char_of (48 + n mod 10)])"

fun format_4f :: "pyfloat \<Rightarrow> string" where
  "format_4f (Finite x) = decimal_4f x"
| "format_4f NegZero = ''-0.0000''"
| "format_4f NaN = ''nan''"
| "format_4f PosInf = ''inf''"
| "format_4f NegInf = ''-inf''"

text \<open>The two verdict strings, U+662F and U+5426, as their UTF-8 bytes.\<close>

definition verdict_yes :: string where
  "verdict_yes = [CHR 0xE6, CHR 0x98, CHR 0xAF]"

definition verdict_no :: string where
  "verdict_no = [CHR 0xE5, CHR 0x90, CHR 0xA6]"

text \<open>
  A row of the summary table; the fields are in the order of the eight columns, whose
  headers are Chinese in the script.
\<close>

record summary_row =
  row_family :: string
  row_pair :: string
  row_adf :: string
  row_p :: string
  row_crit1 :: string
  row_crit5 :: string
  row_crit10 :: string
  row_verdict :: string

definition make_row :: "string \<Rightarrow> string \<Rightarrow> adf_result \<Rightarrow> summary_row" where
  "make_row ft name result =
     \<lparr>row_family = str_upper ft,
      row_pair = name,
      row_adf = format_4f (adf_statistic result),
      row_p = format_4f (p_value result),
      row_crit1 = format_4f (crit_1pct (critical_values result)),
      row_crit5 = format_4f (crit_5pct (critical_values result)),
      row_crit10 = format_4f (crit_10pct (critical_values result)),
      row_verdict = (if is_stationary result then verdict_yes else verdict_no)\<rparr>"

text \<open>Lines 107 to 122: the two nested loops over \<open>self.results\<close>.\<close>

definition summary_data ::
  "(string \<times> (string \<times> adf_result) list) list \<Rightarrow> summary_row list" where
  "summary_data res =
     concat (map (\<lambda>(ft, contracts). map (\<lambda>(name, result). make_row ft name result) contracts) res)"

definition generate_summary_table ::
  "('k, 't) world \<Rightarrow> analyzer \<Rightarrow> py_exception + summary_row list \<times> analyzer" where
  "generate_summary_table w self =
     ebind (if results self = [] then
              ebind (analyze_all_futures w self) (\<lambda>(all_results, self'). Inr self')
            else Inr self) (\<lambda>self'.
     Inr (summary_data (results self'), self'))"

text \<open>The analyzers that the constructor and the two methods can produce.\<close>

inductive reachable :: "('k, 't) world \<Rightarrow> analyzer \<Rightarrow> bool" for w :: "('k, 't) world" where
  reach_init: "reachable w (init fts)"
| reach_analyze:
    "reachable w self \<Longrightarrow> analyze_all_futures w self = Inr (r, self') \<Longrightarrow> reachable w self'"
| reach_summary:
    "reachable w self \<Longrightarrow> generate_summary_table w self = Inr (t, self') \<Longrightarrow> reachable w self'"

text \<open>
  Vocabulary of the proofs: one turn of the loop of \<open>analyze_all_futures\<close>, the keys of a
  results mapping in the order of its entries, and the shape of the mappings that the
  analyzer builds (no key twice, family keys in upper case).
\<close>

definition collect ::
  "('k, 't) world \<Rightarrow> (string \<times> (string \<times> adf_result) list) list \<Rightarrow> string
     \<Rightarrow> (string \<times> (string \<times> adf_result) list) list" where
  "collect w all_results ft =
     (case analyze_spread_combinations w ft of
        Inl e \<Rightarrow> all_results
      | Inr res \<Rightarrow> dict_set all_results (str_upper ft) res)"

definition result_keys ::
  "(string \<times> (string \<times> adf_result) list) list \<Rightarrow> (string \<times> string) list" where
  "result_keys res = concat (map (\<lambda>(ft, contracts). map (\<lambda>(name, r). (ft, name)) contracts) res)"

text \<open>
  The entries of a results mapping in the order in which the two loops of
  \<open>generate_summary_table\<close> visit them: family key, pair label and result.
\<close>

definition result_entries ::
  "(string \<times> (string \<times> adf_result) list) list \<Rightarrow> (string \<times> string \<times> adf_result) list" where
  "result_entries res =
     concat (map (\<lambda>(ft, contracts). map (\<lambda>(name, r). (ft, name, r)) contracts) res)"

definition wf_results :: "(string \<times> (string \<times> adf_result) list) list \<Rightarrow> bool" where
  "wf_results res =
     (distinct (map fst res) \<and>
      list_all (\<lambda>(ft, contracts). str_upper ft = ft \<and> distinct (map fst contracts)) res)"

text \<open>The key of a summary row, and a string of the form \<open>[-]d...d.dddd\<close>.\<close>

definition row_key :: "summary_row \<Rightarrow> string \<times> string" where
  "row_key r = (row_family r, row_pair r)"

definition is_digit :: "char \<Rightarrow> bool" where
  "is_digit c = (48 \<le> (of_char c :: nat) \<and> (of_char c :: nat) \<le> 57)"

text \<open>A series whose values, NaN aside, are all the same.\<close>

definition constant_series :: "real option list \<Rightarrow> bool" where
  "constant_series series =
     (case dropna series of [] \<Rightarrow> True | x # xs \<Rightarrow> list_all (\<lambda>y. y = x) xs)"

definition fixed4 :: "string \<Rightarrow> bool" where
  "fixed4 s =
     (let body = (case s of [] \<Rightarrow> [] | c # r \<Rightarrow> if c = CHR ''-'' then r else s);
          whole = take (length body - 5) body;
          rest = drop (length body - 5) body
      in whole \<noteq> [] \<and> list_all is_digit whole \<and>
         (case rest of
            [] \<Rightarrow> False
          | d # fraction \<Rightarrow> d = CHR ''.'' \<and> length fraction = 4 \<and> list_all is_digit fraction))"


section \<open>Example inputs\<close>

text \<open>
  Four leg files of the family \<open>if\<close> whose dates only partly overlap, and a parser of
  dates written as \<open>YYYYMMDD\<close> numbers.
\<close>

definition ex_read_csv :: "string \<Rightarrow> py_exception + (nat, real) csv" where
  "ex_read_csv path =
     (if path = ''IF00.csv'' then
        Inr \<lparr>csv_dates = Some [20240102, 20240103, 20240104],
             csv_cols = [(''open'', [3400, 3412, 3431]), (''close'', [3410.2, 3430.4, 3425])]\<rparr>
      else if path = ''IF01.csv'' then
        Inr \<lparr>csv_dates = Some [20240103, 20240104, 20240105],
             csv_cols = [(''close'', [3420.6, 3419.8, 3440])]\<rparr>
      else if path = ''IF02.csv'' then
        Inr \<lparr>csv_dates = Some [20240104, 20240103],
             csv_cols = [(''close'', [3401.2, 3405])]\<rparr>
      else if path = ''IF03.csv'' then
        Inr \<lparr>csv_dates = Some [20240102, 20240103, 20240104],
             csv_cols = [(''close'', [3380, 3390.5, 3385.4])]\<rparr>
      else Inl (Raise ''FileNotFoundError'' path))"

definition ex_strptime :: "nat \<Rightarrow> py_exception + nat \<times> nat \<times> nat" where
  "ex_strptime n =
     (if 1 \<le> n div 100 mod 100 \<and> n div 100 mod 100 \<le> 12 \<and> 1 \<le> n mod 100 \<and> n mod 100 \<le> 31
      then Inr (n div 10000, n div 100 mod 100, n mod 100)
      else Inl (Raise ''ValueError'' ''time data does not match format''))"

definition ex_table :: "(nat \<times> nat \<times> nat, real) frame" where
  "ex_table =
     \<lparr>cols = [''close_if0'', ''close_if1'', ''close_if2'', ''close_if3'',
              ''price_spread_if0_if1'', ''price_spread_if0_if2'', ''price_spread_if0_if3'',
              ''price_spread_if1_if2'', ''price_spread_if1_if3'', ''price_spread_if2_if3''],
      rows = [((2024, 1, 3),
               [3430.4, 3420.6, 3405, 3390.5, 9.8, 25.4, 39.9, 15.6, 30.1, 14.5]),
              ((2024, 1, 4),
               [3425, 3419.8, 3401.2, 3385.4, 5.2, 23.8, 39.6, 18.6, 34.4, 15.8])]\<rparr>"

text \<open>
  Two stand-ins for \<open>adfuller\<close>.  The first behaves on a constant input as current
  statsmodels does: it raises a ValueError.  The second returns a result for every input.
\<close>

definition ex_output :: "real \<Rightarrow> adf_output" where
  "ex_output p =
     \<lparr>adfstat = Finite (- 3.51268), pvalue = Finite p, usedlag = 1, nobs = 4,
      critvalues = \<lparr>crit_1pct = Finite (- 3.4369), crit_5pct = Finite (- 2.8644),
                    crit_10pct = Finite (- 2.5683)\<rparr>,
      icbest = Finite 101.25\<rparr>"

definition ex_adfuller :: "real list \<Rightarrow> py_exception + adf_output" where
  "ex_adfuller xs =
     (case xs of
        [] \<Rightarrow> Inl (Raise ''ValueError'' ''zero-size array'')
      | x # rest \<Rightarrow>
          if list_all (\<lambda>y. y = x) rest then Inl (Raise ''ValueError'' ''Invalid input, x is constant'')
          else Inr (ex_output (if 5 < \<bar>last xs - x\<bar> then 0.62 else 0.0076)))"

definition ex_adfuller_lenient :: "real list \<Rightarrow> py_exception + adf_output" where
  "ex_adfuller_lenient xs = Inr (ex_output 1)"

text \<open>
  A world for the analyzer: the spread files of \<open>if\<close> and \<open>ih\<close> are sound, the second
  spread column of the file of \<open>ic\<close> is constant, and there is no file for \<open>im\<close>.
\<close>

definition ex_spread_files :: "string \<Rightarrow> py_exception + (string, real option) csv" where
  "ex_spread_files path =
     (if path = ''data/if_spread.csv'' then
        Inr \<lparr>csv_dates = Some [''2024-01-03'', ''2024-01-04'', ''2024-01-05'', ''2024-01-08''],
             csv_cols =
               [(''close_if0'', [Some 3430.4, Some 3425, Some 3431, Some 3440.2]),
                (''close_if1'', [Some 3420.6, Some 3419.8, None, Some 3433.1]),
                (''price_spread_if0_if1'', [Some 9.8, Some 5.2, None, Some 7.1]),
                (''price_spread_if0_if2'', [Some 25.4, Some 23.8, Some 24, Some 31.2])]\<rparr>
      else if path = ''data/ih_spread.csv'' then
        Inr \<lparr>csv_dates = Some [''2024-01-03'', ''2024-01-04'', ''2024-01-05''],
             csv_cols = [(''price_spread_ih0_ih1'', [Some 4.4, Some 4.6, Some 4.1])]\<rparr>
      else if path = ''data/ic_spread.csv'' then
        Inr \<lparr>csv_dates = Some [''2024-01-03'', ''2024-01-04'', ''2024-01-05''],
             csv_cols =
               [(''price_spread_ic0_ic1'', [Some 12, Some 14.5, Some 13]),
                (''price_spread_ic0_ic2'', [Some 20, Some 20, Some 20])]\<rparr>
      else Inl (Raise ''FileNotFoundError'' path))"

definition ex_world :: "(string, string) world" where
  "ex_world =
     \<lparr>os_path_exists =
        (\<lambda>path. path \<in> set [''data/if_spread.csv'', ''data/ih_spread.csv'', ''data/ic_spread.csv'']),
      pd_read_csv = ex_spread_files,
      pd_to_datetime = (\<lambda>ds. Inr ds),
      sm_adfuller = ex_adfuller\<rparr>"

definition ex_result :: "string \<Rightarrow> real \<Rightarrow> adf_result" where
  "ex_result name p =
     \<lparr>series_name = name, adf_statistic = Finite (- 3.51268), p_value = Finite p,
      critical_values = \<lparr>crit_1pct = Finite (- 3.4369), crit_5pct = Finite (- 2.8644),
                         crit_10pct = Finite (- 2.5683)\<rparr>,
      is_stationary = (p \<le> 0.05)\<rparr>"

definition ex_results :: "(string \<times> (string \<times> adf_result) list) list" where
  "ex_results =
     [(''IF'', [(''if0-if1'', ex_result ''if0-if1'' 0.0076),
                (''if0-if2'', ex_result ''if0-if2'' 0.62)]),
      (''IH'', [(''ih0-ih1'', ex_result ''ih0-ih1'' 0.0076)])]"

definition ex_ic_frame :: "(string, real option) csv" where
  "ex_ic_frame =
     \<lparr>csv_dates = Some [''2024-01-03'', ''2024-01-04'', ''2024-01-05''],
      csv_cols =
        [(''price_spread_ic0_ic1'', [Some 12, Some 14.5, Some 13]),
         (''price_spread_ic0_ic2'', [Some 20, Some 20, Some 20])]\<rparr>"

definition ex_analyzer :: analyzer where
  "ex_analyzer = init [''if'', ''ih'', ''ic'', ''im'']"

text \<open>
  The summary table of the example world; the verdict column holds the UTF-8 bytes of
  U+662F (yes) and U+5426 (no).
\<close>

definition ex_summary :: "summary_row list" where
  "ex_summary =
     [\<lparr>row_family = ''IF'', row_pair = ''if0-if1'', row_adf = ''-3.5127'', row_p = ''0.0076'',
       row_crit1 = ''-3.4369'', row_crit5 = ''-2.8644'', row_crit10 = ''-2.5683'',
       row_verdict = [CHR 0xE6, CHR 0x98, CHR 0xAF]\<rparr>,
      \<lparr>row_family = ''IF'', row_pair = ''if0-if2'', row_adf = ''-3.5127'', row_p = ''0.6200'',
       row_crit1 = ''-3.4369'', row_crit5 = ''-2.8644'', row_crit10 = ''-2.5683'',
       row_verdict = [CHR 0xE5, CHR 0x90, CHR 0xA6]\<rparr>,
      \<lparr>row_family = ''IH'', row_pair = ''ih0-ih1'', row_adf = ''-3.5127'', row_p = ''0.0076'',
       row_crit1 = ''-3.4369'', row_crit5 = ''-2.8644'', row_crit10 = ''-2.5683'',
       row_verdict = [CHR 0xE6, CHR 0x98, CHR 0xAF]\<rparr>]"

text \<open>
  The spread file that holds the table \<open>ex_table\<close> of the builder, with the dates as
  \<open>to_csv\<close> writes them, and a world in which it is the file of the family \<open>if\<close>.
\<close>

definition ex_if_frame :: "(string, real option) csv" where
  "ex_if_frame =
     \<lparr>csv_dates = Some [''2024-01-03'', ''2024-01-04''],
      csv_cols =
        [(''close_if0'', [Some 3430.4, Some 3425]),
         (''close_if1'', [Some 3420.6, Some 3419.8]),
         (''close_if2'', [Some 3405, Some 3401.2]),
         (''close_if3'', [Some 3390.5, Some 3385.4]),
         (''price_spread_if0_if1'', [Some 9.8, Some 5.2]),
         (''price_spread_if0_if2'', [Some 25.4, Some 23.8]),
         (''price_spread_if0_if3'', [Some 39.9, Some 39.6]),
         (''price_spread_if1_if2'', [Some 15.6, Some 18.6]),
         (''price_spread_if1_if3'', [Some 30.1, Some 34.4]),
         (''price_spread_if2_if3'', [Some 14.5, Some 15.8])]\<rparr>"

definition ex_table_world :: "(string, string) world" where
  "ex_table_world =
     \<lparr>os_path_exists = (\<lambda>path. path = ''data/if_spread.csv''),
      pd_read_csv =
        (\<lambda>path. if path = ''data/if_spread.csv'' then Inr ex_if_frame
                else Inl (Raise ''FileNotFoundError'' path)),
      pd_to_datetime = (\<lambda>ds. Inr ds),
      sm_adfuller = ex_adfuller\<rparr>"

definition ex_if_results :: "(string \<times> adf_result) list" where
  "ex_if_results =
     [(''if0-if1'', ex_result ''if0-if1'' 0.0076), (''if0-if2'', ex_result ''if0-if2'' 0.0076),
      (''if0-if3'', ex_result ''if0-if3'' 0.0076), (''if1-if2'', ex_result ''if1-if2'' 0.0076),
      (''if1-if3'', ex_result ''if1-if3'' 0.0076), (''if2-if3'', ex_result ''if2-if3'' 0.0076)]"



section \<open>Properties of process_futures.py\<close>

lemma ebind_Inl [simp]: "ebind (Inl e) f = Inl e" by (simp add: ebind_def)
lemma ebind_Inr [simp]: "ebind (Inr x) f = f x" by (simp add: ebind_def)
lemma ebind_eq_Inr: "ebind m f = Inr y \<longleftrightarrow> (\<exists>x. m = Inr x \<and> f x = Inr y)"
  by (cases m) simp_all

lemma str_nat_0: "str_nat 0 = ''0''" by code_simp
lemma str_nat_1: "str_nat 1 = ''1''" by code_simp
lemma str_nat_Suc_0: "str_nat (Suc 0) = ''1''" by code_simp
lemma str_nat_2: "str_nat 2 = ''2''" by code_simp
lemma str_nat_3: "str_nat 3 = ''3''" by code_simp
lemma str_nat_Suc_1: "str_nat (Suc (Suc 0)) = ''2''" by code_simp
lemma str_nat_Suc_2: "str_nat (Suc (Suc (Suc 0))) = ''3''" by code_simp
lemmas str_nat_small =
  str_nat_0 str_nat_1 str_nat_Suc_0 str_nat_2 str_nat_3 str_nat_Suc_1 str_nat_Suc_2

lemma zip_self_map: "zip xs (map g xs) = map (\<lambda>x. (x, g x)) xs"
  by (induction xs) simp_all

lemma map2_maps: "map2 f (map g xs) (map h xs) = map (\<lambda>x. f (g x) (h x)) xs"
  by (induction xs) simp_all

lemma add_spread_step:
  assumes "index_of (close_name ft i) (cols f) = Some a"
    and "index_of (close_name ft j) (cols f) = Some b"
    and "index_of (spread_name ft i j) (cols f) = None"
  shows "add_spread ft i j f =
           Inr \<lparr>cols = cols f @ [spread_name ft i j],
                rows = map (\<lambda>(k, vs). (k, vs @ [vs ! a - vs ! b])) (rows f)\<rparr>"
proof -
  have "map2 (\<lambda>(k, vs) v. (k, vs @ [v])) R
          (map2 (\<lambda>x y. x - y) (map (\<lambda>(k, vs). vs ! a) R) (map (\<lambda>(k, vs). vs ! b) R)) =
        map (\<lambda>(k, vs). (k, vs @ [vs ! a - vs ! b])) R" for R :: "('a \<times> 'b list) list"
    by (induction R) auto
  then show ?thesis
    using assms by (simp add: add_spread_def get_col_def set_col_def)
qed

lemma names_simps:
  "close_name ft 0 = ''close_'' @ ft @ ''0''"
  "close_name ft 1 = ''close_'' @ ft @ ''1''"
  "close_name ft (Suc 0) = ''close_'' @ ft @ ''1''"
  "close_name ft 2 = ''close_'' @ ft @ ''2''"
  "close_name ft 3 = ''close_'' @ ft @ ''3''"
  "spread_name ft 0 1 = ''price_spread_'' @ ft @ ''0_'' @ ft @ ''1''"
  "spread_name ft 0 (Suc 0) = ''price_spread_'' @ ft @ ''0_'' @ ft @ ''1''"
  "spread_name ft 0 2 = ''price_spread_'' @ ft @ ''0_'' @ ft @ ''2''"
  "spread_name ft 0 3 = ''price_spread_'' @ ft @ ''0_'' @ ft @ ''3''"
  "spread_name ft 1 2 = ''price_spread_'' @ ft @ ''1_'' @ ft @ ''2''"
  "spread_name ft (Suc 0) 2 = ''price_spread_'' @ ft @ ''1_'' @ ft @ ''2''"
  "spread_name ft 1 3 = ''price_spread_'' @ ft @ ''1_'' @ ft @ ''3''"
  "spread_name ft (Suc 0) 3 = ''price_spread_'' @ ft @ ''1_'' @ ft @ ''3''"
  "spread_name ft 2 3 = ''price_spread_'' @ ft @ ''2_'' @ ft @ ''3''"
  by (simp_all add: close_name_def spread_name_def str_nat_small)

lemma range_lists:
  "[0..<3] = [0, 1, 2::nat]"
  "[0 + 1..<4] = [1, 2, 3::nat]"
  "[1 + 1..<4] = [2, 3::nat]"
  "[2 + 1..<4] = [3::nat]"
  by (simp_all add: upt_rec)

lemma index_of_append_new:
  "index_of x ys = None \<Longrightarrow> index_of x (ys @ [x]) = Some (length ys)"
  by (induction ys) (auto split: if_splits)

lemma add_spreads_closed:
  assumes c: "cols m = [close_name ft 0, close_name ft 1, close_name ft 2, close_name ft 3]"
    and w: "\<forall>(k, vs) \<in> set (rows m). length vs = 4"
  shows "add_spreads ft m =
           Inr \<lparr>cols = cols m @ [spread_name ft 0 1, spread_name ft 0 2, spread_name ft 0 3,
                                 spread_name ft 1 2, spread_name ft 1 3, spread_name ft 2 3],
                rows = map (\<lambda>(k, vs). (k, vs @ six vs)) (rows m)\<rparr>"
proof -
  let ?st = "\<lambda>a b. map (\<lambda>(k, vs). (k, vs @ [vs ! a - vs ! b]))"
  define f1 where "f1 = \<lparr>cols = cols m @ [spread_name ft 0 1], rows = ?st 0 1 (rows m)\<rparr>"
  define f2 where "f2 = \<lparr>cols = cols f1 @ [spread_name ft 0 2], rows = ?st 0 2 (rows f1)\<rparr>"
  define f3 where "f3 = \<lparr>cols = cols f2 @ [spread_name ft 0 3], rows = ?st 0 3 (rows f2)\<rparr>"
  define f4 where "f4 = \<lparr>cols = cols f3 @ [spread_name ft 1 2], rows = ?st 1 2 (rows f3)\<rparr>"
  define f5 where "f5 = \<lparr>cols = cols f4 @ [spread_name ft 1 3], rows = ?st 1 3 (rows f4)\<rparr>"
  define f6 where "f6 = \<lparr>cols = cols f5 @ [spread_name ft 2 3], rows = ?st 2 3 (rows f5)\<rparr>"
  have s1: "add_spread ft 0 1 m = Inr f1"
    unfolding f1_def by (rule add_spread_step) (simp_all add: c names_simps)
  have s2: "add_spread ft 0 2 f1 = Inr f2"
    unfolding f2_def by (rule add_spread_step) (simp_all add: f1_def c names_simps)
  have s3: "add_spread ft 0 3 f2 = Inr f3"
    unfolding f3_def by (rule add_spread_step) (simp_all add: f2_def f1_def c names_simps)
  have s4: "add_spread ft 1 2 f3 = Inr f4"
    unfolding f4_def by (rule add_spread_step) (simp_all add: f3_def f2_def f1_def c names_simps)
  have s5: "add_spread ft 1 3 f4 = Inr f5"
    unfolding f5_def
    by (rule add_spread_step) (simp_all add: f4_def f3_def f2_def f1_def c names_simps)
  have s6: "add_spread ft 2 3 f5 = Inr f6"
    unfolding f6_def
    by (rule add_spread_step) (simp_all add: f5_def f4_def f3_def f2_def f1_def c names_simps)
  have loop: "add_spreads ft m = Inr f6"
    by (simp only: add_spreads_def range_lists for_each.simps s1 s2 s3 s4 s5 s6 ebind_Inr)
  have "rows f6 = map (\<lambda>(k, vs). (k, vs @ six vs)) (rows m)"
    using w
    by (auto simp: f6_def f5_def f4_def f3_def f2_def f1_def six_def nth_append)
  moreover have "cols f6 = cols m @ [spread_name ft 0 1, spread_name ft 0 2, spread_name ft 0 3,
                                 spread_name ft 1 2, spread_name ft 1 3, spread_name ft 2 3]"
    by (simp add: f6_def f5_def f4_def f3_def f2_def f1_def)
  ultimately show ?thesis
    using loop by simp
qed


lemma select_close_leg:
  assumes "rd (leg_path ft i) = Inr df" and "select_close (close_name ft i) df = Inr s"
  shows "s = leg_frame rd ft i"
  using assms
  by (auto simp: select_close_def leg_frame_def leg_rows_def zip_map2 case_prod_unfold
      split: option.splits)

lemma merge_rows_mem:
  "(k, us) \<in> set (rows (merge_inner l r)) \<longleftrightarrow>
     (\<exists>vs ws. us = vs @ ws \<and> (k, vs) \<in> set (rows l) \<and> (k, ws) \<in> set (rows r))"
proof -
  have "(k, us) \<in> set (concat (map (\<lambda>(k, vs). map (\<lambda>(k', ws). (k, vs @ ws))
                                        (filter (\<lambda>(k', ws). k' = k) R)) L)) \<longleftrightarrow>
        (\<exists>vs ws. us = vs @ ws \<and> (k, vs) \<in> set L \<and> (k, ws) \<in> set R)" for L R
    by (induction L) (auto simp: image_iff)
  then show ?thesis by (simp add: merge_inner_def)
qed

lemma matches_distinct:
  "distinct (map fst R) \<Longrightarrow>
     map (\<lambda>(k', ws). (k, f ws)) (filter (\<lambda>(k', ws). k' = k) R) =
       (case map_of R k of None \<Rightarrow> [] | Some ws \<Rightarrow> [(k, f ws)])"
proof (induction R)
  case Nil
  then show ?case by simp
next
  case (Cons a R)
  obtain k' ws where a: "a = (k', ws)" by (cases a)
  show ?case
  proof (cases "k' = k")
    case True
    with Cons.prems a have "k \<notin> fst ` set R" by auto
    then have "filter (\<lambda>(k', ws). k' = k) R = []"
      by (force simp: filter_empty_conv)
    with True a show ?thesis by simp
  next
    case False
    with Cons a show ?thesis by simp
  qed
qed

lemma merge_keys:
  assumes "distinct (map fst (rows r))"
  shows "map fst (rows (merge_inner l r)) =
           filter (\<lambda>k. k \<in> fst ` set (rows r)) (map fst (rows l))"
proof -
  have "map fst (concat (map (\<lambda>(k, vs). map (\<lambda>(k', ws). (k, vs @ ws))
                                        (filter (\<lambda>(k', ws). k' = k) (rows r))) L)) =
        filter (\<lambda>k. k \<in> fst ` set (rows r)) (map fst L)" for L
  proof (induction L)
    case Nil
    then show ?case by simp
  next
    case (Cons a L)
    obtain k vs where a: "a = (k, vs)" by (cases a)
    have "map fst (map (\<lambda>(k', ws). (k, vs @ ws)) (filter (\<lambda>(k', ws). k' = k) (rows r))) =
          (if k \<in> fst ` set (rows r) then [k] else [])"
    proof (cases "map_of (rows r) k")
      case None
      then have "k \<notin> fst ` set (rows r)"
        by (simp add: map_of_eq_None_iff)
      with None show ?thesis
        using matches_distinct [OF assms, of k "\<lambda>ws. vs @ ws"] by simp
    next
      case (Some ws)
      then have "k \<in> fst ` set (rows r)"
        by (force dest: map_of_SomeD)
      with Some show ?thesis
        using matches_distinct [OF assms, of k "\<lambda>ws. vs @ ws"] by simp
    qed
    with Cons a show ?case by simp
  qed
  then show ?thesis by (simp add: merge_inner_def)
qed

lemma leg_frame_keys [simp]: "map fst (rows (leg_frame rd ft i)) = map fst (leg_rows rd ft i)"
  by (simp add: leg_frame_def case_prod_unfold)

lemma leg_frame_mem:
  "(k, ws) \<in> set (rows (leg_frame rd ft i)) \<longleftrightarrow> (\<exists>c. ws = [c] \<and> (k, c) \<in> set (leg_rows rd ft i))"
  by (auto simp: leg_frame_def)

lemma merge_leg_mem:
  "(k, us) \<in> set (rows (merge_inner l (leg_frame rd ft i))) \<longleftrightarrow>
     (\<exists>vs c. us = vs @ [c] \<and> (k, vs) \<in> set (rows l) \<and> (k, c) \<in> set (leg_rows rd ft i))"
  unfolding merge_rows_mem leg_frame_mem by blast

lemma snoc_eqs:
  "([a, b] = vs @ [x]) = (vs = [a] \<and> x = b)"
  "([a, b, c] = vs @ [x]) = (vs = [a, b] \<and> x = c)"
  "([a, b, c, d] = vs @ [x]) = (vs = [a, b, c] \<and> x = d)"
  by (auto simp: Cons_eq_append_conv)

lemma joined_cols:
  "cols (joined rd ft) = [close_name ft 0, close_name ft 1, close_name ft 2, close_name ft 3]"
  by (simp add: joined_def merge_inner_def leg_frame_def)

lemma joined_mem:
  "(k, vs) \<in> set (rows (joined rd ft)) \<longleftrightarrow>
     (\<exists>c0 c1 c2 c3. vs = [c0, c1, c2, c3] \<and> (k, c0) \<in> set (leg_rows rd ft 0) \<and>
        (k, c1) \<in> set (leg_rows rd ft 1) \<and> (k, c2) \<in> set (leg_rows rd ft 2) \<and>
        (k, c3) \<in> set (leg_rows rd ft 3))"
  unfolding joined_def merge_leg_mem leg_frame_mem by (auto simp: snoc_eqs)

lemma joined_keys:
  assumes "distinct (map fst (leg_rows rd ft 1))" and "distinct (map fst (leg_rows rd ft 2))"
    and "distinct (map fst (leg_rows rd ft 3))"
  shows "map fst (rows (joined rd ft)) =
           filter (\<lambda>k. k \<in> fst ` set (leg_rows rd ft 1) \<and> k \<in> fst ` set (leg_rows rd ft 2) \<and>
                        k \<in> fst ` set (leg_rows rd ft 3)) (map fst (leg_rows rd ft 0))"
proof -
  have s: "fst ` set (rows (leg_frame rd ft i)) = fst ` set (leg_rows rd ft i)" for i
    using leg_frame_keys [of rd ft i] by (metis set_map)
  show ?thesis
    unfolding joined_def using assms
    by (simp add: merge_keys s conj_commute conj_left_commute)
qed

lemma select_all_legs:
  assumes "rd (leg_path ft 0) = Inr df0" and "rd (leg_path ft 1) = Inr df1"
    and "rd (leg_path ft 2) = Inr df2" and "rd (leg_path ft 3) = Inr df3"
    and "select_all ft 0 [df0, df1, df2, df3] = Inr dfs"
  shows "dfs = [leg_frame rd ft 0, leg_frame rd ft 1, leg_frame rd ft 2, leg_frame rd ft 3]"
  using assms
  by (auto simp: ebind_eq_Inr numeral_eq_Suc dest!: select_close_leg)

lemma process_result:
  assumes "process_futures_data rd sp ft = Inr out"
  shows "\<exists>ts. to_datetime sp (map fst (rows (joined rd ft))) = Inr ts \<and>
           out = \<lparr>cols = [close_name ft 0, close_name ft 1, close_name ft 2, close_name ft 3,
                          spread_name ft 0 1, spread_name ft 0 2, spread_name ft 0 3,
                          spread_name ft 1 2, spread_name ft 1 3, spread_name ft 2 3],
                  rows = zip ts (map (\<lambda>(k, vs). vs @ six vs) (rows (joined rd ft)))\<rparr>"
proof -
  from assms obtain df0 df1 df2 df3 dfs where
    r: "rd (leg_path ft 0) = Inr df0" "rd (leg_path ft 1) = Inr df1"
       "rd (leg_path ft 2) = Inr df2" "rd (leg_path ft 3) = Inr df3"
    and s: "select_all ft 0 [df0, df1, df2, df3] = Inr dfs"
    and rest: "(case dfs of
        [] \<Rightarrow> Inl (Raise ''IndexError'' ''list index out of range'')
      | d # ds \<Rightarrow>
          ebind (add_spreads ft (foldl merge_inner d ds)) (\<lambda>merged_df.
          convert_dates sp merged_df)) = Inr out"
    unfolding process_futures_data_def ebind_eq_Inr by blast
  have dfs: "dfs = [leg_frame rd ft 0, leg_frame rd ft 1, leg_frame rd ft 2, leg_frame rd ft 3]"
    using r s by (rule select_all_legs)
  have m: "foldl merge_inner (leg_frame rd ft 0) [leg_frame rd ft 1, leg_frame rd ft 2, leg_frame rd ft 3]
             = joined rd ft"
    by (simp add: joined_def)
  have w: "\<forall>(k, vs) \<in> set (rows (joined rd ft)). length vs = 4"
    by (auto simp: joined_mem)
  from rest show ?thesis
    unfolding dfs list.case m add_spreads_closed [OF joined_cols w]
    by (auto simp: convert_dates_def ebind_eq_Inr joined_cols case_prod_unfold comp_def)
qed


lemma to_datetime_all2:
  "to_datetime sp ks = Inr ts \<Longrightarrow> list_all2 (\<lambda>k t. sp k = Inr t) ks ts"
  by (induction ks arbitrary: ts) (auto simp: ebind_eq_Inr)

lemma leg_pairs_eq: "leg_pairs = [(0, 1), (0, 2), (0, 3), (1, 2), (1, 3), (2, 3)]"
  by (simp add: leg_pairs_def upt_rec)

text \<open>
  C8.  A table that \<open>process_futures_data\<close> returns has, after \<open>trade_date\<close> and the four
  close columns, exactly the six spread columns of the leg pairs \<open>(i, j)\<close> with
  \<open>0 \<le> i < j \<le> 3\<close>, one for each pair: the column names are pairwise different and the
  pairs enumerated are all of them.
\<close>

theorem pair_completeness:
  assumes "process_futures_data read_csv strptime futures_type = Inr out"
  shows "columns out =
           ''trade_date'' # map (close_name futures_type) [0..<4] @
             map (\<lambda>(i, j). spread_name futures_type i j) leg_pairs \<and>
         length leg_pairs = 6 \<and>
         set leg_pairs = {(i, j). i < j \<and> j \<le> 3} \<and>
         distinct (columns out)"
proof -
  have r4: "[0..<4] = [0, 1, 2, 3::nat]" by (simp add: upt_rec)
  have "set leg_pairs = {(i, j). i < j \<and> j \<le> 3}"
    unfolding leg_pairs_eq by auto
  moreover from process_result [OF assms]
  have "cols out = map (close_name futures_type) [0..<4] @
             map (\<lambda>(i, j). spread_name futures_type i j) leg_pairs"
    by (auto simp: leg_pairs_eq r4)
  ultimately show ?thesis
    by (simp add: columns_def leg_pairs_eq r4 names_simps)
qed

lemma upper_if: "str_upper ''if'' = ''IF''" by code_simp

lemma ex_paths:
  "leg_path ''if'' 0 = ''IF00.csv''" "leg_path ''if'' 1 = ''IF01.csv''"
  "leg_path ''if'' (Suc 0) = ''IF01.csv''"
  "leg_path ''if'' 2 = ''IF02.csv''" "leg_path ''if'' 3 = ''IF03.csv''"
  by (simp_all add: leg_path_def upper_if str_nat_small)

lemma ex_run: "process_futures_data ex_read_csv ex_strptime ''if'' = Inr ex_table"
proof -
  define df0 :: "(nat, real) csv" where
    "df0 = \<lparr>csv_dates = Some [20240102, 20240103, 20240104],
            csv_cols = [(''open'', [3400, 3412, 3431]), (''close'', [3410.2, 3430.4, 3425])]\<rparr>"
  define df1 :: "(nat, real) csv" where
    "df1 = \<lparr>csv_dates = Some [20240103, 20240104, 20240105],
            csv_cols = [(''close'', [3420.6, 3419.8, 3440])]\<rparr>"
  define df2 :: "(nat, real) csv" where
    "df2 = \<lparr>csv_dates = Some [20240104, 20240103], csv_cols = [(''close'', [3401.2, 3405])]\<rparr>"
  define df3 :: "(nat, real) csv" where
    "df3 = \<lparr>csv_dates = Some [20240102, 20240103, 20240104],
            csv_cols = [(''close'', [3380, 3390.5, 3385.4])]\<rparr>"
  define s0 :: "(nat, real) frame" where
    "s0 = \<lparr>cols = [''close_if0''],
           rows = [(20240102, [3410.2]), (20240103, [3430.4]), (20240104, [3425])]\<rparr>"
  define s1 :: "(nat, real) frame" where
    "s1 = \<lparr>cols = [''close_if1''],
           rows = [(20240103, [3420.6]), (20240104, [3419.8]), (20240105, [3440])]\<rparr>"
  define s2 :: "(nat, real) frame" where
    "s2 = \<lparr>cols = [''close_if2''], rows = [(20240104, [3401.2]), (20240103, [3405])]\<rparr>"
  define s3 :: "(nat, real) frame" where
    "s3 = \<lparr>cols = [''close_if3''],
           rows = [(20240102, [3380]), (20240103, [3390.5]), (20240104, [3385.4])]\<rparr>"
  define m :: "(nat, real) frame" where
    "m = \<lparr>cols = [''close_if0'', ''close_if1'', ''close_if2'', ''close_if3''],
          rows = [(20240103, [3430.4, 3420.6, 3405, 3390.5]),
                  (20240104, [3425, 3419.8, 3401.2, 3385.4])]\<rparr>"
  define sp :: "(nat, real) frame" where
    "sp = \<lparr>cols = cols ex_table,
           rows = [(20240103, snd (rows ex_table ! 0)), (20240104, snd (rows ex_table ! 1))]\<rparr>"
  have rd: "ex_read_csv (leg_path ''if'' 0) = Inr df0" "ex_read_csv (leg_path ''if'' 1) = Inr df1"
    "ex_read_csv (leg_path ''if'' 2) = Inr df2" "ex_read_csv (leg_path ''if'' 3) = Inr df3"
    by (simp_all add: ex_paths ex_read_csv_def df0_def df1_def df2_def df3_def)
  have sel: "select_all ''if'' 0 [df0, df1, df2, df3] = Inr [s0, s1, s2, s3]"
    by (simp add: select_close_def close_name_def str_nat_small
        df0_def df1_def df2_def df3_def s0_def s1_def s2_def s3_def)
  have mg: "foldl merge_inner s0 [s1, s2, s3] = m"
    by (simp add: merge_inner_def s0_def s1_def s2_def s3_def m_def)
  have ad: "add_spreads ''if'' m = Inr sp"
    unfolding add_spreads_def range_lists for_each.simps
    by (simp add: add_spread_def get_col_def set_col_def close_name_def spread_name_def
        str_nat_small m_def sp_def ex_table_def)
  have cv: "convert_dates ex_strptime sp = Inr ex_table"
    by (simp add: convert_dates_def ex_strptime_def sp_def ex_table_def)
  show ?thesis
    by (simp only: process_futures_data_def rd ebind_Inr sel list.case mg ad cv)
qed

theorem pair_completeness_witness:
  "process_futures_data ex_read_csv ex_strptime ''if'' = Inr ex_table \<and>
   columns ex_table =
     ''trade_date'' # map (close_name ''if'') [0..<4] @
       map (\<lambda>(i, j). spread_name ''if'' i j) leg_pairs \<and>
   length leg_pairs = 6 \<and>
   set leg_pairs = {(i, j). i < j \<and> j \<le> 3} \<and>
   distinct (columns ex_table)"
  by (rule conjI [OF ex_run pair_completeness [OF ex_run]])

lemma pair_cases:
  assumes "i < j" and "j \<le> (3::nat)"
  shows "(i, j) \<in> {(0, 1), (0, 2), (0, 3), (1, 2), (1, 3), (2, 3)}"
  using assms by auto

lemma leg_cases: "i < (4::nat) \<Longrightarrow> i \<in> {0, 1, 2, 3}"
  by auto


lemma out_cols_index:
  "index_of (close_name ft 0) (out_cols ft) = Some 0"
  "index_of (close_name ft 1) (out_cols ft) = Some 1"
  "index_of (close_name ft 2) (out_cols ft) = Some 2"
  "index_of (close_name ft 3) (out_cols ft) = Some 3"
  "index_of (spread_name ft 0 1) (out_cols ft) = Some 4"
  "index_of (spread_name ft 0 2) (out_cols ft) = Some 5"
  "index_of (spread_name ft 0 3) (out_cols ft) = Some 6"
  "index_of (spread_name ft 1 2) (out_cols ft) = Some 7"
  "index_of (spread_name ft 1 3) (out_cols ft) = Some 8"
  "index_of (spread_name ft 2 3) (out_cols ft) = Some 9"
  by (simp_all add: out_cols_def names_simps)

lemma process_rows:
  assumes "process_futures_data rd sp ft = Inr out"
  shows "cols out = out_cols ft"
    and "\<exists>ts. to_datetime sp (map fst (rows (joined rd ft))) = Inr ts \<and>
           rows out = zip ts (map (\<lambda>(k, vs). vs @ six vs) (rows (joined rd ft)))"
  using process_result [OF assms] by (auto simp: out_cols_def)

lemma out_row_shape:
  assumes "process_futures_data rd sp ft = Inr out" and "row \<in> set (rows out)"
  shows "\<exists>c0 c1 c2 c3.
           snd row = [c0, c1, c2, c3, c0 - c1, c0 - c2, c0 - c3, c1 - c2, c1 - c3, c2 - c3]"
proof -
  from process_rows(2) [OF assms(1)] obtain ts where
    ro: "rows out = zip ts (map (\<lambda>(k, vs). vs @ six vs) (rows (joined rd ft)))"
    by blast
  from assms(2) have "(fst row, snd row) \<in>
      set (zip ts (map (\<lambda>(k, vs). vs @ six vs) (rows (joined rd ft))))"
    by (simp add: ro)
  then have "snd row \<in> set (map (\<lambda>(k, vs). vs @ six vs) (rows (joined rd ft)))"
    by (rule set_zip_rightD)
  then obtain k vs where kv: "(k, vs) \<in> set (rows (joined rd ft))"
    and r: "snd row = vs @ six vs"
    by auto
  from kv obtain c0 c1 c2 c3 where vs: "vs = [c0, c1, c2, c3]"
    unfolding joined_mem by blast
  show ?thesis
    by (simp add: r vs six_def)
qed

lemma row_value_at:
  "index_of name (cols f) = Some n \<Longrightarrow> n < length (snd r) \<Longrightarrow>
     row_value f name r = Some (snd r ! n)"
  by (simp add: row_value_def)

text \<open>
  C2.  In every row of a table that \<open>process_futures_data\<close> returns and for every leg pair
  \<open>(i, j)\<close> with \<open>0 \<le> i < j \<le> 3\<close>, the cell of the spread column of the pair is the
  difference of the row's cells of the two close columns, computed by one subtraction.
\<close>

theorem spread_algebra:
  assumes "process_futures_data read_csv strptime futures_type = Inr out"
    and "row \<in> set (rows out)" and "i < j" and "j \<le> 3"
  shows "\<exists>a b. row_value out (close_name futures_type i) row = Some a \<and>
               row_value out (close_name futures_type j) row = Some b \<and>
               row_value out (spread_name futures_type i j) row = Some (a - b)"
proof -
  note co = process_rows(1) [OF assms(1)]
  from out_row_shape [OF assms(1,2)] obtain c0 c1 c2 c3 where
    r: "snd row = [c0, c1, c2, c3, c0 - c1, c0 - c2, c0 - c3, c1 - c2, c1 - c3, c2 - c3]"
    by blast
  have v: "index_of name (out_cols futures_type) = Some n \<Longrightarrow> n < 10 \<Longrightarrow>
             row_value out name row = Some (snd row ! n)" for name n
    by (rule row_value_at) (simp_all add: co r)
  from pair_cases [OF assms(3,4)]
  consider "i = 0" "j = 1" | "i = 0" "j = 2" | "i = 0" "j = 3"
    | "i = 1" "j = 2" | "i = 1" "j = 3" | "i = 2" "j = 3"
    by auto
  then show ?thesis
  proof cases
    case 1
    then show ?thesis
      using v [OF out_cols_index(1)] v [OF out_cols_index(2)] v [OF out_cols_index(5)]
      by (simp add: r)
  next
    case 2
    then show ?thesis
      using v [OF out_cols_index(1)] v [OF out_cols_index(3)] v [OF out_cols_index(6)]
      by (simp add: r)
  next
    case 3
    then show ?thesis
      using v [OF out_cols_index(1)] v [OF out_cols_index(4)] v [OF out_cols_index(7)]
      by (simp add: r)
  next
    case 4
    then show ?thesis
      using v [OF out_cols_index(2)] v [OF out_cols_index(3)] v [OF out_cols_index(8)]
      by (simp add: r)
  next
    case 5
    then show ?thesis
      using v [OF out_cols_index(2)] v [OF out_cols_index(4)] v [OF out_cols_index(9)]
      by (simp add: r)
  next
    case 6
    then show ?thesis
      using v [OF out_cols_index(3)] v [OF out_cols_index(4)] v [OF out_cols_index(10)]
      by (simp add: r)
  qed
qed


theorem spread_algebra_witness:
  "process_futures_data ex_read_csv ex_strptime ''if'' = Inr ex_table \<and>
   ((2024, 1, 3), [3430.4, 3420.6, 3405, 3390.5, 9.8, 25.4, 39.9, 15.6, 30.1, 14.5])
     \<in> set (rows ex_table) \<and>
   (1::nat) < 3 \<and> (3::nat) \<le> 3 \<and>
   (\<exists>a b. row_value ex_table (close_name ''if'' 1)
             ((2024, 1, 3), [3430.4, 3420.6, 3405, 3390.5, 9.8, 25.4, 39.9, 15.6, 30.1, 14.5])
             = Some a \<and>
          row_value ex_table (close_name ''if'' 3)
             ((2024, 1, 3), [3430.4, 3420.6, 3405, 3390.5, 9.8, 25.4, 39.9, 15.6, 30.1, 14.5])
             = Some b \<and>
          row_value ex_table (spread_name ''if'' 1 3)
             ((2024, 1, 3), [3430.4, 3420.6, 3405, 3390.5, 9.8, 25.4, 39.9, 15.6, 30.1, 14.5])
             = Some (a - b))"
proof -
  have m: "((2024, 1, 3), [3430.4, 3420.6, 3405, 3390.5, 9.8, 25.4, 39.9, 15.6, 30.1, 14.5])
             \<in> set (rows ex_table)"
    by (simp add: ex_table_def)
  have h1: "(1::nat) < 3" and h2: "(3::nat) \<le> 3"
    by simp_all
  from ex_run m h1 h2 spread_algebra [OF ex_run m h1 h2] show ?thesis
    by (intro conjI)
qed

text \<open>
  C1.  When every leg file has each trade date once and \<open>process_futures_data\<close> returns a
  table, the rows of the table are, one for one and in order, the dates of the
  intersection of the four files' date sets (each parsed by \<open>to_datetime\<close>); so the row
  count is the cardinality of the intersection.  In the row of a date, the cell of the
  column \<open>close_<symbol><i>\<close> is the close of that date in the file of leg \<open>i\<close>.
\<close>

theorem join_correctness:
  assumes ok: "process_futures_data read_csv strptime futures_type = Inr out"
    and uniq: "\<forall>i<4. distinct (map fst (leg_rows read_csv futures_type i))"
  shows "length (rows out) =
           card (fst ` set (leg_rows read_csv futures_type 0) \<inter>
                 fst ` set (leg_rows read_csv futures_type 1) \<inter>
                 fst ` set (leg_rows read_csv futures_type 2) \<inter>
                 fst ` set (leg_rows read_csv futures_type 3)) \<and>
         (\<exists>ks. distinct ks \<and>
            set ks = fst ` set (leg_rows read_csv futures_type 0) \<inter>
                     fst ` set (leg_rows read_csv futures_type 1) \<inter>
                     fst ` set (leg_rows read_csv futures_type 2) \<inter>
                     fst ` set (leg_rows read_csv futures_type 3) \<and>
            list_all2
              (\<lambda>k row. strptime k = Inr (fst row) \<and>
                 (\<forall>i<4. \<exists>c. row_value out (close_name futures_type i) row = Some c \<and>
                              map_of (leg_rows read_csv futures_type i) k = Some c))
              ks (rows out))"
proof -
  let ?L = "leg_rows read_csv futures_type"
  let ?J = "rows (joined read_csv futures_type)"
  let ?g = "\<lambda>(k, vs). vs @ six vs"
  let ?I = "fst ` set (?L 0) \<inter> fst ` set (?L 1) \<inter> fst ` set (?L 2) \<inter> fst ` set (?L 3)"
  define ks where "ks = map fst ?J"
  have d: "distinct (map fst (?L 0))" "distinct (map fst (?L 1))"
    "distinct (map fst (?L 2))" "distinct (map fst (?L 3))"
    using uniq by simp_all
  note co = process_rows(1) [OF ok]
  from process_rows(2) [OF ok] obtain ts where
    ts: "to_datetime strptime ks = Inr ts" and ro: "rows out = zip ts (map ?g ?J)"
    unfolding ks_def by blast
  have kf: "ks = filter (\<lambda>k. k \<in> fst ` set (?L 1) \<and> k \<in> fst ` set (?L 2) \<and>
                              k \<in> fst ` set (?L 3)) (map fst (?L 0))"
    unfolding ks_def by (rule joined_keys [OF d(2,3,4)])
  have dk: "distinct ks"
    unfolding kf using d(1) by (rule distinct_filter)
  have sk: "set ks = ?I"
    unfolding kf by auto
  have a2: "list_all2 (\<lambda>k t. strptime k = Inr t) ks ts"
    using ts by (rule to_datetime_all2)
  then have lt: "length ts = length ks"
    by (simp add: list_all2_lengthD)
  have lj: "length ?J = length ks"
    by (simp add: ks_def)
  have lr: "length (rows out) = length ks"
    by (simp add: ro lt lj)
  have cnt: "length (rows out) = card ?I"
    using distinct_card [OF dk] by (simp add: lr sk)
  have each: "strptime (ks ! n) = Inr (fst (rows out ! n)) \<and>
      (\<forall>i<4. \<exists>c. row_value out (close_name futures_type i) (rows out ! n) = Some c \<and>
                   map_of (?L i) (ks ! n) = Some c)" if n: "n < length ks" for n
  proof -
    obtain k vs where kv: "?J ! n = (k, vs)" by (cases "?J ! n")
    have kn: "ks ! n = k"
      using n kv by (simp add: ks_def)
    have rn: "rows out ! n = (ts ! n, vs @ six vs)"
      using n kv by (simp add: ro lt lj)
    have "(k, vs) \<in> set ?J"
      using n lj kv by (metis nth_mem)
    then obtain c0 c1 c2 c3 where vs: "vs = [c0, c1, c2, c3]"
      and mem: "(k, c0) \<in> set (?L 0)" "(k, c1) \<in> set (?L 1)"
        "(k, c2) \<in> set (?L 2)" "(k, c3) \<in> set (?L 3)"
      unfolding joined_mem by blast
    have mo: "map_of (?L 0) k = Some c0" "map_of (?L 1) k = Some c1"
      "map_of (?L 2) k = Some c2" "map_of (?L 3) k = Some c3"
      using d mem by (simp_all add: map_of_is_SomeI)
    have v: "index_of name (out_cols futures_type) = Some m \<Longrightarrow> m < 10 \<Longrightarrow>
               row_value out name (rows out ! n) = Some (snd (rows out ! n) ! m)" for name m
      by (rule row_value_at) (simp_all add: co rn vs six_def)
    have rv: "row_value out (close_name futures_type 0) (rows out ! n) = Some c0"
      "row_value out (close_name futures_type 1) (rows out ! n) = Some c1"
      "row_value out (close_name futures_type 2) (rows out ! n) = Some c2"
      "row_value out (close_name futures_type 3) (rows out ! n) = Some c3"
      using v [OF out_cols_index(1)] v [OF out_cols_index(2)]
        v [OF out_cols_index(3)] v [OF out_cols_index(4)]
      by (simp_all add: rn vs)
    have "strptime (ks ! n) = Inr (ts ! n)"
      using a2 n by (rule list_all2_nthD)
    moreover have "\<exists>c. row_value out (close_name futures_type i) (rows out ! n) = Some c \<and>
        map_of (?L i) (ks ! n) = Some c" if "i < 4" for i
      using leg_cases [OF that] rv mo kn by auto
    ultimately show ?thesis
      by (simp add: rn)
  qed
  have "list_all2
          (\<lambda>k row. strptime k = Inr (fst row) \<and>
             (\<forall>i<4. \<exists>c. row_value out (close_name futures_type i) row = Some c \<and>
                          map_of (?L i) k = Some c))
          ks (rows out)"
    using lr each by (intro list_all2_all_nthI) simp_all
  with cnt dk sk show ?thesis
    by blast
qed

lemma ex_legs:
  "leg_rows ex_read_csv ''if'' 0 = [(20240102, 3410.2), (20240103, 3430.4), (20240104, 3425)]"
  "leg_rows ex_read_csv ''if'' 1 = [(20240103, 3420.6), (20240104, 3419.8), (20240105, 3440)]"
  "leg_rows ex_read_csv ''if'' 2 = [(20240104, 3401.2), (20240103, 3405)]"
  "leg_rows ex_read_csv ''if'' 3 = [(20240102, 3380), (20240103, 3390.5), (20240104, 3385.4)]"
  by (simp_all add: leg_rows_def ex_paths ex_read_csv_def)

theorem join_correctness_witness:
  "process_futures_data ex_read_csv ex_strptime ''if'' = Inr ex_table \<and>
   distinct (map fst (leg_rows ex_read_csv ''if'' 0)) \<and>
   distinct (map fst (leg_rows ex_read_csv ''if'' 1)) \<and>
   distinct (map fst (leg_rows ex_read_csv ''if'' 2)) \<and>
   distinct (map fst (leg_rows ex_read_csv ''if'' 3)) \<and>
   length (rows ex_table) =
     card (fst ` set (leg_rows ex_read_csv ''if'' 0) \<inter>
           fst ` set (leg_rows ex_read_csv ''if'' 1) \<inter>
           fst ` set (leg_rows ex_read_csv ''if'' 2) \<inter>
           fst ` set (leg_rows ex_read_csv ''if'' 3)) \<and>
   (\<exists>ks. distinct ks \<and>
      set ks = fst ` set (leg_rows ex_read_csv ''if'' 0) \<inter>
               fst ` set (leg_rows ex_read_csv ''if'' 1) \<inter>
               fst ` set (leg_rows ex_read_csv ''if'' 2) \<inter>
               fst ` set (leg_rows ex_read_csv ''if'' 3) \<and>
      list_all2
        (\<lambda>k row. ex_strptime k = Inr (fst row) \<and>
           (\<exists>c. row_value ex_table (close_name ''if'' 0) row = Some c \<and>
                map_of (leg_rows ex_read_csv ''if'' 0) k = Some c) \<and>
           (\<exists>c. row_value ex_table (close_name ''if'' 3) row = Some c \<and>
                map_of (leg_rows ex_read_csv ''if'' 3) k = Some c))
        ks (rows ex_table))"
proof -
  have d: "distinct (map fst (leg_rows ex_read_csv ''if'' 0))"
    "distinct (map fst (leg_rows ex_read_csv ''if'' 1))"
    "distinct (map fst (leg_rows ex_read_csv ''if'' 2))"
    "distinct (map fst (leg_rows ex_read_csv ''if'' 3))"
    by (simp_all only: ex_legs, simp_all)
  have u: "\<forall>i<4. distinct (map fst (leg_rows ex_read_csv ''if'' i))"
  proof (intro allI impI)
    fix i :: nat
    assume "i < 4"
    then have "i \<in> {0, 1, 2, 3}" by (rule leg_cases)
    then consider "i = 0" | "i = 1" | "i = 2" | "i = 3" by auto
    then show "distinct (map fst (leg_rows ex_read_csv ''if'' i))"
      using d by cases simp_all
  qed
  note jc = join_correctness [OF ex_run u]
  from jc obtain ks where ks: "distinct ks"
    "set ks = fst ` set (leg_rows ex_read_csv ''if'' 0) \<inter>
              fst ` set (leg_rows ex_read_csv ''if'' 1) \<inter>
              fst ` set (leg_rows ex_read_csv ''if'' 2) \<inter>
              fst ` set (leg_rows ex_read_csv ''if'' 3)"
    and all: "list_all2
        (\<lambda>k row. ex_strptime k = Inr (fst row) \<and>
           (\<forall>i<4. \<exists>c. row_value ex_table (close_name ''if'' i) row = Some c \<and>
                        map_of (leg_rows ex_read_csv ''if'' i) k = Some c))
        ks (rows ex_table)"
    by blast
  have "list_all2
        (\<lambda>k row. ex_strptime k = Inr (fst row) \<and>
           (\<exists>c. row_value ex_table (close_name ''if'' 0) row = Some c \<and>
                map_of (leg_rows ex_read_csv ''if'' 0) k = Some c) \<and>
           (\<exists>c. row_value ex_table (close_name ''if'' 3) row = Some c \<and>
                map_of (leg_rows ex_read_csv ''if'' 3) k = Some c))
        ks (rows ex_table)"
    using all by (rule list_all2_mono) simp
  with ks have e: "\<exists>ks. distinct ks \<and>
      set ks = fst ` set (leg_rows ex_read_csv ''if'' 0) \<inter>
               fst ` set (leg_rows ex_read_csv ''if'' 1) \<inter>
               fst ` set (leg_rows ex_read_csv ''if'' 2) \<inter>
               fst ` set (leg_rows ex_read_csv ''if'' 3) \<and>
      list_all2
        (\<lambda>k row. ex_strptime k = Inr (fst row) \<and>
           (\<exists>c. row_value ex_table (close_name ''if'' 0) row = Some c \<and>
                map_of (leg_rows ex_read_csv ''if'' 0) k = Some c) \<and>
           (\<exists>c. row_value ex_table (close_name ''if'' 3) row = Some c \<and>
                map_of (leg_rows ex_read_csv ''if'' 3) k = Some c))
        ks (rows ex_table)"
    by blast
  from jc have c: "length (rows ex_table) =
     card (fst ` set (leg_rows ex_read_csv ''if'' 0) \<inter>
           fst ` set (leg_rows ex_read_csv ''if'' 1) \<inter>
           fst ` set (leg_rows ex_read_csv ''if'' 2) \<inter>
           fst ` set (leg_rows ex_read_csv ''if'' 3))"
    by (rule conjunct1)
  show ?thesis
    by (intro conjI) (rule ex_run d c e)+
qed


section \<open>Properties of cointegration_analysis.py\<close>

lemma perform_adf_test_Inr:
  "perform_adf_test adfuller series name = Inr r \<longleftrightarrow>
     (\<exists>res. adfuller (dropna series) = Inr res \<and>
        r = \<lparr>series_name = name, adf_statistic = adfstat res, p_value = pvalue res,
             critical_values = critvalues res,
             is_stationary = float_le (pvalue res) (Finite 0.05)\<rparr>)"
  by (auto simp: perform_adf_test_def ebind_eq_Inr)

lemma perform_adf_test_Inl:
  "perform_adf_test adfuller series name = Inl e \<longleftrightarrow> adfuller (dropna series) = Inl e"
  by (cases "adfuller (dropna series)") (simp_all add: perform_adf_test_def)




text \<open>
  C6 as stated fails: \<open>perform_adf_test\<close> has no check for a constant series and no
  exception class of its own.  With an \<open>adfuller\<close> that rejects a constant input the
  exception is the library's ValueError; with one that does not, a result is returned.
\<close>

theorem degenerate_series_counterexample:
  "constant_series [Some 5, Some 5, None, Some 5] \<and>
   perform_adf_test ex_adfuller [Some 5, Some 5, None, Some 5] ''if0-if1'' =
     Inl (Raise ''ValueError'' ''Invalid input, x is constant'') \<and>
   ''ValueError'' \<noteq> ''DegenerateSeries'' \<and>
   perform_adf_test ex_adfuller_lenient [Some 5, Some 5, None, Some 5] ''if0-if1'' =
     Inr \<lparr>series_name = ''if0-if1'', adf_statistic = Finite (- 3.51268), p_value = Finite 1,
          critical_values = \<lparr>crit_1pct = Finite (- 3.4369), crit_5pct = Finite (- 2.8644),
                             crit_10pct = Finite (- 2.5683)\<rparr>,
          is_stationary = False\<rparr>"
  by (simp add: constant_series_def perform_adf_test_def ex_adfuller_def ex_adfuller_lenient_def
      ex_output_def)

text \<open>
  C6 as amended.  \<open>perform_adf_test\<close> does nothing about a constant series itself: on
  every series, constant or not, it raises exactly the exception that \<open>adfuller\<close> raises
  on the series without its missing values, and when \<open>adfuller\<close> returns it returns a
  result with the statistic and p-value of \<open>adfuller\<close>, whatever they are.
\<close>

theorem adf_test_passes_adfuller_outcome:
  "(\<forall>e. perform_adf_test adfuller series name = Inl e \<longleftrightarrow> adfuller (dropna series) = Inl e) \<and>
   (\<forall>res. adfuller (dropna series) = Inr res \<longrightarrow>
      (\<exists>r. perform_adf_test adfuller series name = Inr r \<and>
           adf_statistic r = adfstat res \<and> p_value r = pvalue res))"
  by (auto simp: perform_adf_test_Inl perform_adf_test_Inr)

theorem adf_test_passes_adfuller_outcome_witness:
  "constant_series [Some 5, Some 5, None, Some 5] \<and>
   ex_adfuller (dropna [Some 5, Some 5, None, Some 5]) =
     Inl (Raise ''ValueError'' ''Invalid input, x is constant'') \<and>
   perform_adf_test ex_adfuller [Some 5, Some 5, None, Some 5] ''if0-if1'' =
     Inl (Raise ''ValueError'' ''Invalid input, x is constant'') \<and>
   ex_adfuller_lenient (dropna [Some 5, Some 5, None, Some 5]) = Inr (ex_output 1) \<and>
   (\<exists>r. perform_adf_test ex_adfuller_lenient [Some 5, Some 5, None, Some 5] ''if0-if1'' = Inr r \<and>
        adf_statistic r = adfstat (ex_output 1) \<and> p_value r = pvalue (ex_output 1))"
proof -
  have c: "constant_series [Some 5, Some 5, None, Some 5]"
    by (simp add: constant_series_def)
  have a: "ex_adfuller (dropna [Some 5, Some 5, None, Some 5]) =
             Inl (Raise ''ValueError'' ''Invalid input, x is constant'')"
    by (simp add: ex_adfuller_def)
  have b: "ex_adfuller_lenient (dropna [Some 5, Some 5, None, Some 5]) = Inr (ex_output 1)"
    by (simp add: ex_adfuller_lenient_def)
  from adf_test_passes_adfuller_outcome [of ex_adfuller "[Some 5, Some 5, None, Some 5]" "''if0-if1''"]
    adf_test_passes_adfuller_outcome
      [of ex_adfuller_lenient "[Some 5, Some 5, None, Some 5]" "''if0-if1''"] a b c
  show ?thesis
    by blast
qed

lemma split_no_sep: "sep \<notin> set s \<Longrightarrow> split sep s = [s]"
  by (induction s) auto

lemma split_ne: "split sep s \<noteq> []"
  by (induction s) (auto split: list.splits)

lemma split_at_sep:
  "sep \<notin> set a \<Longrightarrow> split sep (a @ sep # b) = a # split sep b"
  by (induction a) (auto split: list.splits)

lemma digit_not_underscore: "m < 10 \<Longrightarrow> char_of (48 + m :: nat) \<noteq> CHR ''_''"
proof
  assume m: "m < 10" and "char_of (48 + m) = CHR ''_''"
  then have "(of_char (char_of (48 + m)) :: nat) = of_char CHR ''_''"
    by simp
  with m show False
    by simp
qed

lemma str_nat_no_underscore: "CHR ''_'' \<notin> set (str_nat n)"
proof (induction n rule: str_nat.induct)
  case (1 n)
  show ?case
  proof (cases "n < 10")
    case True
    then show ?thesis
      using digit_not_underscore [of n] by (subst str_nat.simps) auto
  next
    case False
    then show ?thesis
      using 1 digit_not_underscore [of "n mod 10"] by (subst str_nat.simps) auto
  qed
qed

lemma split_spread_name:
  assumes "CHR ''_'' \<notin> set ft"
  shows "split CHR ''_'' (spread_name ft i j) =
           [''price'', ''spread'', ft @ str_nat i, ft @ str_nat j]"
proof -
  let ?a = "ft @ str_nat i" and ?b = "ft @ str_nat j"
  have a: "CHR ''_'' \<notin> set ?a" and b: "CHR ''_'' \<notin> set ?b"
    using assms by (simp_all add: str_nat_no_underscore)
  have s3: "split CHR ''_'' (?a @ CHR ''_'' # ?b) = [?a, ?b]"
    using split_at_sep [OF a, of ?b] split_no_sep [OF b] by simp
  have s2: "split CHR ''_'' (''spread'' @ CHR ''_'' # (?a @ CHR ''_'' # ?b)) =
              ''spread'' # split CHR ''_'' (?a @ CHR ''_'' # ?b)"
    by (rule split_at_sep) simp
  have s1: "split CHR ''_'' (''price'' @ CHR ''_'' # (''spread'' @ CHR ''_'' # (?a @ CHR ''_'' # ?b))) =
              ''price'' # split CHR ''_'' (''spread'' @ CHR ''_'' # (?a @ CHR ''_'' # ?b))"
    by (rule split_at_sep) simp
  have "spread_name ft i j =
          ''price'' @ CHR ''_'' # (''spread'' @ CHR ''_'' # (?a @ CHR ''_'' # ?b))"
    by (simp add: spread_name_def)
  then show ?thesis
    by (simp only: s1 s2 s3)
qed

lemma pair_name_spread:
  assumes "CHR ''_'' \<notin> set ft"
  shows "pair_name (spread_name ft i j) = Inr (ft @ str_nat i @ ''-'' @ ft @ str_nat j)"
  by (simp add: pair_name_def last_two_def split_spread_name [OF assms])

lemma startswith_spread_name: "startswith (spread_name ft i j) ''price_spread''"
  by (simp add: startswith_def spread_name_def)

lemma test_column_label:
  assumes "test_column w df col = Inr (name, result)"
  shows "pair_name col = Inr name \<and> series_name result = name"
  using assms by (auto simp: test_column_def ebind_eq_Inr perform_adf_test_Inr)

text \<open>
  C5 as stated fails: the spread columns carry the family symbol before each leg index,
  and so does the pair label that the tester derives from the column name.  The table
  of the example has the column \<open>price_spread_if0_if1\<close> and no column
  \<open>price_spread_0_1\<close>.
\<close>

theorem pair_label_counterexample:
  "spread_name ''if'' 0 1 = ''price_spread_if0_if1'' \<and>
   spread_name ''if'' 0 1 \<noteq> ''price_spread_0_1'' \<and>
   pair_name (spread_name ''if'' 0 1) = Inr ''if0-if1'' \<and>
   pair_name (spread_name ''if'' 0 1) \<noteq> Inr ''0-1'' \<and>
   process_futures_data ex_read_csv ex_strptime ''if'' = Inr ex_table \<and>
   ''price_spread_if0_if1'' \<in> set (columns ex_table) \<and>
   ''price_spread_0_1'' \<notin> set (columns ex_table)"
proof -
  have 1: "spread_name ''if'' 0 1 = ''price_spread_if0_if1''"
    "spread_name ''if'' 0 1 \<noteq> ''price_spread_0_1''"
    "pair_name (spread_name ''if'' 0 1) = Inr ''if0-if1''"
    "pair_name (spread_name ''if'' 0 1) \<noteq> Inr ''0-1''"
    by (simp_all add: names_simps pair_name_def last_two_def)
  have 2: "''price_spread_if0_if1'' \<in> set (columns ex_table)"
    "''price_spread_0_1'' \<notin> set (columns ex_table)"
    by (simp_all add: columns_def ex_table_def)
  show ?thesis
    by (intro conjI) (rule 1 2 ex_run)+
qed




subsection \<open>Case conversion\<close>

lemma lower_upper_lower_code: "lower_code (upper_code (lower_code n)) = lower_code n"
proof (cases "65 \<le> n \<and> n \<le> 90")
  case True
  then have l: "lower_code n = n + 32"
    by (simp add: lower_code_def)
  from True have "97 \<le> n + 32 \<and> n + 32 \<le> 122"
    by linarith
  then have "upper_code (n + 32) = n"
    by (simp add: upper_code_def)
  with l show ?thesis
    by simp
next
  case False
  then have l: "lower_code n = n"
    by (simp add: lower_code_def)
  show ?thesis
  proof (cases "97 \<le> n \<and> n \<le> 122")
    case True
    then have u: "upper_code n = n - 32"
      by (simp add: upper_code_def)
    from True have "65 \<le> n - 32 \<and> n - 32 \<le> 90"
      by linarith
    then have "lower_code (n - 32) = n - 32 + 32"
      by (simp add: lower_code_def)
    moreover from True have "n - 32 + 32 = n"
      by linarith
    ultimately show ?thesis
      by (simp add: l u)
  next
    case False
    then have "upper_code n = n"
      unfolding upper_code_def by (rule if_not_P)
    then show ?thesis
      by (simp add: l)
  qed
qed

lemma upper_upper_code: "upper_code (upper_code n) = upper_code n"
proof (cases "97 \<le> n \<and> n \<le> 122")
  case True
  then have "\<not> (97 \<le> n - 32 \<and> n - 32 \<le> 122)"
    by linarith
  then have "upper_code (n - 32) = n - 32"
    unfolding upper_code_def by (rule if_not_P)
  moreover from True have "upper_code n = n - 32"
    unfolding upper_code_def by (rule if_P)
  ultimately show ?thesis
    by simp
next
  case False
  then have "upper_code n = n"
    unfolding upper_code_def by (rule if_not_P)
  then show ?thesis
    by simp
qed

lemma upper_code_less: "n < 256 \<Longrightarrow> upper_code n < 256"
proof (cases "97 \<le> n \<and> n \<le> 122")
  case True
  then have "upper_code n = n - 32"
    unfolding upper_code_def by (rule if_P)
  with True show ?thesis
    by linarith
next
  case False
  then have "upper_code n = n"
    unfolding upper_code_def by (rule if_not_P)
  then show "n < 256 \<Longrightarrow> upper_code n < 256"
    by simp
qed

lemma lower_code_less: "n < 256 \<Longrightarrow> lower_code n < 256"
proof (cases "65 \<le> n \<and> n \<le> 90")
  case True
  then have "lower_code n = n + 32"
    unfolding lower_code_def by (rule if_P)
  with True show ?thesis
    by linarith
next
  case False
  then have "lower_code n = n"
    unfolding lower_code_def by (rule if_not_P)
  then show "n < 256 \<Longrightarrow> lower_code n < 256"
    by simp
qed

lemma of_char_upper_char: "(of_char (upper_char c) :: nat) = upper_code (of_char c)"
  using upper_code_less [of "of_char c"] by (simp add: upper_char_def)

lemma of_char_lower_char: "(of_char (lower_char c) :: nat) = lower_code (of_char c)"
  using lower_code_less [of "of_char c"] by (simp add: lower_char_def)

lemma lower_upper_lower_char: "lower_char (upper_char (lower_char c)) = lower_char c"
proof -
  have "(of_char (lower_char (upper_char (lower_char c))) :: nat) = of_char (lower_char c)"
    by (simp only: of_char_lower_char of_char_upper_char lower_upper_lower_code)
  then show ?thesis
    by (simp only: of_char_eq_iff)
qed

lemma upper_upper_char: "upper_char (upper_char c) = upper_char c"
proof -
  have "(of_char (upper_char (upper_char c)) :: nat) = of_char (upper_char c)"
    by (simp only: of_char_upper_char upper_upper_code)
  then show ?thesis
    by (simp only: of_char_eq_iff)
qed

lemma str_upper_idem: "str_upper (str_upper s) = str_upper s"
  unfolding str_upper_def by (induction s) (simp_all only: list.map upper_upper_char)

lemma str_lower_upper_lower: "str_lower (str_upper (str_lower s)) = str_lower s"
  unfolding str_upper_def str_lower_def
  by (induction s) (simp_all only: list.map lower_upper_lower_char)

lemma str_upper_inj_on_lower: "inj_on str_upper (set (map str_lower fts))"
proof (rule inj_onI)
  fix a b
  assume a: "a \<in> set (map str_lower fts)" and b: "b \<in> set (map str_lower fts)"
    and e: "str_upper a = str_upper b"
  from a obtain s where s: "a = str_lower s"
    by auto
  from b obtain t where t: "b = str_lower t"
    by auto
  have "str_lower (str_upper a) = str_lower (str_upper b)"
    using e by (rule arg_cong)
  then have "str_lower s = str_lower t"
    unfolding s t str_lower_upper_lower .
  then show "a = b"
    unfolding s t .
qed

lemma ascii_lower_fixed: "ascii_lower s \<Longrightarrow> str_lower s = s"
  unfolding ascii_lower_def str_lower_def by (induction s) simp_all

lemma str_upper_inj_on_ascii:
  assumes "list_all ascii_lower fts"
  shows "inj_on str_upper (set fts)"
proof -
  from assms have "map str_lower fts = fts"
    by (induction fts) (simp_all add: ascii_lower_fixed)
  with str_upper_inj_on_lower [of fts] show ?thesis
    by simp
qed


subsection \<open>Dictionaries\<close>

lemma map_of_dict_set: "map_of (dict_set d k v) = (map_of d)(k \<mapsto> v)"
  by (induction d) (auto simp: fun_eq_iff)

lemma keys_dict_set: "fst ` set (dict_set d k v) = insert k (fst ` set d)"
proof -
  have "dom (map_of (dict_set d k v)) = dom ((map_of d)(k \<mapsto> v))"
    by (simp only: map_of_dict_set)
  then show ?thesis
    by (simp add: dom_map_of_conv_image_fst)
qed

lemma distinct_dict_set: "distinct (map fst d) \<Longrightarrow> distinct (map fst (dict_set d k v))"
proof (induction d)
  case Nil
  then show ?case by simp
next
  case (Cons a d)
  obtain k' v' where a: "a = (k', v')" by (cases a)
  have "set (map fst (dict_set d k v)) = insert k (set (map fst d))"
    using keys_dict_set [of d k v] by simp
  with Cons a show ?case
    by (cases "k' = k") simp_all
qed

lemma dict_set_mem: "(k', v') \<in> set (dict_set d k v) \<Longrightarrow> (k', v') \<in> set d \<or> (k', v') = (k, v)"
proof (induction d)
  case Nil
  then show ?case by simp
next
  case (Cons a d)
  obtain k0 v0 where a: "a = (k0, v0)" by (cases a)
  from Cons a show ?case
    by (cases "k0 = k") auto
qed


subsection \<open>The loop over the families\<close>

lemma for_each_total:
  assumes "\<And>s x. body s x = Inr (step s x)"
  shows "for_each xs body s = Inr (foldl step s xs)"
  by (induction xs arbitrary: s) (simp_all add: assms)

lemma analyze_all_futures_eq:
  "analyze_all_futures w self =
     Inr (foldl (collect w) [] (futures_types self),
          self\<lparr>results := foldl (collect w) [] (futures_types self)\<rparr>)"
proof -
  have "(case ebind (analyze_spread_combinations w ft) (\<lambda>results.
                Inr (dict_set all_results (str_upper ft) results)) of
           Inl e \<Rightarrow> Inr all_results
         | Inr all_results' \<Rightarrow> Inr all_results') = Inr (collect w all_results ft)"
    for all_results ft
    by (cases "analyze_spread_combinations w ft") (simp_all add: collect_def)
  then have "for_each (futures_types self)
          (\<lambda>all_results ft.
             (case ebind (analyze_spread_combinations w ft) (\<lambda>results.
                     Inr (dict_set all_results (str_upper ft) results)) of
                Inl e \<Rightarrow> Inr all_results
              | Inr all_results' \<Rightarrow> Inr all_results'))
          [] = Inr (foldl (collect w) [] (futures_types self))"
    by (rule for_each_total)
  then show ?thesis
    by (simp add: analyze_all_futures_def)
qed

lemma collect_Inl: "analyze_spread_combinations w ft = Inl e \<Longrightarrow> collect w acc ft = acc"
  by (simp add: collect_def)

lemma collect_Inr:
  "analyze_spread_combinations w ft = Inr r \<Longrightarrow>
     collect w acc ft = dict_set acc (str_upper ft) r"
  by (simp add: collect_def)


lemma collect_keys:
  "fst ` set (foldl (collect w) acc fts) =
     fst ` set acc \<union>
     str_upper ` {ft \<in> set fts. \<exists>r. analyze_spread_combinations w ft = Inr r}"
proof (induction fts arbitrary: acc)
  case Nil
  then show ?case by simp
next
  case (Cons ft fts)
  show ?case
  proof (cases "analyze_spread_combinations w ft")
    case (Inl e)
    then show ?thesis
      by (auto simp: Cons collect_Inl)
  next
    case (Inr r)
    then show ?thesis
      by (auto simp: Cons collect_Inr keys_dict_set)
  qed
qed

lemma collect_lookup_other:
  assumes "k \<notin> str_upper ` set fts"
  shows "map_of (foldl (collect w) acc fts) k = map_of acc k"
  using assms
proof (induction fts arbitrary: acc)
  case Nil
  then show ?case by simp
next
  case (Cons ft fts)
  then show ?case
    by (cases "analyze_spread_combinations w ft")
      (simp_all add: collect_Inl collect_Inr map_of_dict_set)
qed


lemma collect_lookup:
  assumes "inj_on str_upper (set fts)" and "ft \<in> set fts"
  shows "map_of (foldl (collect w) acc fts) (str_upper ft) =
           (case analyze_spread_combinations w ft of
              Inl e \<Rightarrow> map_of acc (str_upper ft)
            | Inr r \<Rightarrow> Some r)"
  using assms
proof (induction fts arbitrary: acc rule: rev_induct)
  case Nil
  then show ?case by simp
next
  case (snoc x xs)
  have inj: "inj_on str_upper (set xs)"
    using snoc.prems(1) by (auto simp: inj_on_def)
  show ?case
  proof (cases "ft \<in> set xs")
    case True
    note ih = snoc.IH [OF inj True, of acc]
    show ?thesis
    proof (cases "x = ft")
      case True
      then show ?thesis
        using ih
        by (cases "analyze_spread_combinations w ft")
          (simp_all add: collect_Inl collect_Inr map_of_dict_set)
    next
      case False
      then have "str_upper x \<noteq> str_upper ft"
        using snoc.prems by (auto simp: inj_on_def)
      then show ?thesis
        using ih
        by (cases "analyze_spread_combinations w x")
          (simp_all add: collect_Inl collect_Inr map_of_dict_set)
    qed
  next
    case False
    then have x: "x = ft"
      using snoc.prems(2) by simp
    have "str_upper ft \<notin> str_upper ` set xs"
      using snoc.prems(1) False x by (auto simp: inj_on_def)
    then have "map_of (foldl (collect w) acc xs) (str_upper ft) = map_of acc (str_upper ft)"
      by (rule collect_lookup_other)
    then show ?thesis
      using x
      by (cases "analyze_spread_combinations w ft")
        (simp_all add: collect_Inl collect_Inr map_of_dict_set)
  qed
qed


subsection \<open>The summary method as an equation\<close>

lemma generate_summary_table_eq:
  "generate_summary_table w self =
     (if results self = [] then
        Inr (summary_data (foldl (collect w) [] (futures_types self)),
             self\<lparr>results := foldl (collect w) [] (futures_types self)\<rparr>)
      else Inr (summary_data (results self), self))"
  by (simp add: generate_summary_table_def analyze_all_futures_eq)


subsection \<open>Failures inside one family\<close>

lemma for_each_fails:
  assumes "x \<in> set xs" and "f x = Inl e"
  shows "\<exists>e'. for_each xs (\<lambda>s x. ebind (f x) (g s)) s = Inl e'"
  using assms
proof (induction xs arbitrary: s)
  case Nil
  then show ?case by simp
next
  case (Cons y ys)
  show ?case
  proof (cases "f y")
    case (Inl e0)
    then show ?thesis by simp
  next
    case (Inr v)
    with Cons.prems have x: "x \<in> set ys"
      by auto
    show ?thesis
    proof (cases "g s v")
      case (Inl e1)
      with Inr show ?thesis by simp
    next
      case r: (Inr s')
      from Cons.IH [OF x Cons.prems(2), of s'] Inr r show ?thesis
        by simp
    qed
  qed
qed

lemma column_failure_fails_family:
  assumes "load_data w ft = Inr df" and "col \<in> set (spread_cols df)"
    and "test_column w df col = Inl e"
  shows "\<exists>e'. analyze_spread_combinations w ft = Inl e'"
  using for_each_fails [where f = "test_column w df"
      and g = "\<lambda>results (name, result). Inr (dict_set results name result)"
      and s = "[]", OF assms(2,3)]
  by (simp add: analyze_spread_combinations_def assms(1))

lemma batch_lookup:
  assumes "list_all ascii_lower (futures_types self)" and "ft \<in> set (futures_types self)"
  shows "map_of (foldl (collect w) [] (futures_types self)) (str_upper ft) =
           (case analyze_spread_combinations w ft of Inl e \<Rightarrow> None | Inr r \<Rightarrow> Some r)"
  using collect_lookup [OF str_upper_inj_on_ascii [OF assms(1)] assms(2), of w "[]"]
  by (cases "analyze_spread_combinations w ft") simp_all

text \<open>
  C4.  \<open>analyze_all_futures\<close> never raises.  For an analyzer whose family symbols are
  ASCII text in lower case (what the constructor stores for the default symbols and for
  any other ASCII symbols), the mapping it returns (and stores) holds, under the
  upper-case symbol, the result of every configured family whose analysis succeeds, and
  no entry for a family whose analysis raises; it has no other keys.  The symbols are
  ASCII because two different symbols with other letters can have the same upper-case
  form, and then they share one entry of the mapping.
\<close>

theorem aggregation_isolation:
  assumes "list_all ascii_lower (futures_types self)"
  shows "\<exists>all_results.
           analyze_all_futures w self = Inr (all_results, self\<lparr>results := all_results\<rparr>) \<and>
           (\<forall>ft \<in> set (futures_types self). \<forall>r.
              analyze_spread_combinations w ft = Inr r \<longrightarrow>
                map_of all_results (str_upper ft) = Some r) \<and>
           (\<forall>ft \<in> set (futures_types self). \<forall>e.
              analyze_spread_combinations w ft = Inl e \<longrightarrow>
                map_of all_results (str_upper ft) = None) \<and>
           fst ` set all_results =
             str_upper ` {ft \<in> set (futures_types self).
                           \<exists>r. analyze_spread_combinations w ft = Inr r}"
proof -
  let ?all = "foldl (collect w) [] (futures_types self)"
  have "analyze_all_futures w self = Inr (?all, self\<lparr>results := ?all\<rparr>)"
    by (rule analyze_all_futures_eq)
  moreover have "map_of ?all (str_upper ft) = Some r"
    if "ft \<in> set (futures_types self)" "analyze_spread_combinations w ft = Inr r" for ft r
    using batch_lookup [OF assms that(1), where w = w] that(2) by simp
  moreover have "map_of ?all (str_upper ft) = None"
    if "ft \<in> set (futures_types self)" "analyze_spread_combinations w ft = Inl e" for ft e
    using batch_lookup [OF assms that(1), where w = w] that(2) by simp
  moreover have "fst ` set ?all =
      str_upper ` {ft \<in> set (futures_types self). \<exists>r. analyze_spread_combinations w ft = Inr r}"
    using collect_keys [of w "[]" "futures_types self"] by simp
  ultimately show ?thesis
    by blast
qed

text \<open>
  C7.  When the test of one spread column of a family raises, the analysis of the family
  raises, whatever columns were tested before; the batch (of an analyzer whose family
  symbols are ASCII text in lower case, as for C4) then has no entry for the family,
  and the entry of every family whose analysis succeeds is its result.
\<close>

theorem pair_failure_aborts_family:
  assumes "list_all ascii_lower (futures_types self)" and "ft \<in> set (futures_types self)"
    and "load_data w ft = Inr df" and "col \<in> set (spread_cols df)"
    and "test_column w df col = Inl e"
  shows "(\<exists>e'. analyze_spread_combinations w ft = Inl e') \<and>
         (\<exists>all_results.
            analyze_all_futures w self = Inr (all_results, self\<lparr>results := all_results\<rparr>) \<and>
            map_of all_results (str_upper ft) = None \<and>
            (\<forall>ft' \<in> set (futures_types self). \<forall>r.
               analyze_spread_combinations w ft' = Inr r \<longrightarrow>
                 map_of all_results (str_upper ft') = Some r))"
proof -
  let ?all = "foldl (collect w) [] (futures_types self)"
  from column_failure_fails_family [OF assms(3,4,5)] obtain e' where
    f: "analyze_spread_combinations w ft = Inl e'"
    by blast
  have a: "analyze_all_futures w self = Inr (?all, self\<lparr>results := ?all\<rparr>)"
    by (rule analyze_all_futures_eq)
  have n: "map_of ?all (str_upper ft) = None"
    using batch_lookup [OF assms(1,2), where w = w] f by simp
  have s: "map_of ?all (str_upper ft') = Some r"
    if "ft' \<in> set (futures_types self)" "analyze_spread_combinations w ft' = Inr r" for ft' r
    using batch_lookup [OF assms(1) that(1), where w = w] that(2) by simp
  from f a n s show ?thesis
    by blast
qed


subsection \<open>The example world\<close>

lemma ex_case:
  "str_lower ''if'' = ''if''" "str_lower ''ih'' = ''ih''"
  "str_lower ''ic'' = ''ic''" "str_lower ''im'' = ''im''"
  "str_upper ''ih'' = ''IH''" "str_upper ''ic'' = ''IC''" "str_upper ''im'' = ''IM''"
  by code_simp+

lemma ex_analyzer_eq:
  "ex_analyzer = \<lparr>futures_types = [''if'', ''ih'', ''ic'', ''im''], results = []\<rparr>"
  by (simp add: ex_analyzer_def init_def ex_case)

lemma ex_labels:
  "pair_name ''price_spread_if0_if1'' = Inr ''if0-if1''"
  "pair_name ''price_spread_if0_if2'' = Inr ''if0-if2''"
  "pair_name ''price_spread_ih0_ih1'' = Inr ''ih0-ih1''"
  "pair_name ''price_spread_ic0_ic1'' = Inr ''ic0-ic1''"
  "pair_name ''price_spread_ic0_ic2'' = Inr ''ic0-ic2''"
  by (simp_all add: pair_name_def last_two_def)

lemma ex_tests:
  "perform_adf_test ex_adfuller [Some 9.8, Some 5.2, None, Some 7.1] name =
     Inr (ex_result name 0.0076)"
  "perform_adf_test ex_adfuller [Some 25.4, Some 23.8, Some 24, Some 31.2] name =
     Inr (ex_result name 0.62)"
  "perform_adf_test ex_adfuller [Some 4.4, Some 4.6, Some 4.1] name =
     Inr (ex_result name 0.0076)"
  "perform_adf_test ex_adfuller [Some 12, Some 14.5, Some 13] name =
     Inr (ex_result name 0.0076)"
  "perform_adf_test ex_adfuller [Some 20, Some 20, Some 20] name =
     Inl (Raise ''ValueError'' ''Invalid input, x is constant'')"
  by (simp_all add: perform_adf_test_def ex_adfuller_def ex_output_def ex_result_def)

lemma ex_load_ic: "load_data ex_world ''ic'' = Inr ex_ic_frame"
  by (simp add: load_data_def ex_world_def ex_spread_files_def ex_case ex_ic_frame_def)

lemma ex_cols_ic: "spread_cols ex_ic_frame = [''price_spread_ic0_ic1'', ''price_spread_ic0_ic2'']"
  by (simp add: spread_cols_def csv_columns_def startswith_def ex_ic_frame_def)

lemma ex_column_ic1:
  "test_column ex_world ex_ic_frame ''price_spread_ic0_ic1'' =
     Inr (''ic0-ic1'', ex_result ''ic0-ic1'' 0.0076)"
proof -
  have "csv_col ex_ic_frame ''price_spread_ic0_ic1'' = Inr [Some 12, Some 14.5, Some 13]"
    by (simp add: csv_col_def ex_ic_frame_def)
  moreover have "sm_adfuller ex_world = ex_adfuller"
    by (simp add: ex_world_def)
  ultimately show ?thesis
    by (simp only: test_column_def ex_labels ex_tests ebind_Inr)
qed

lemma ex_column_ic2:
  "test_column ex_world ex_ic_frame ''price_spread_ic0_ic2'' =
     Inl (Raise ''ValueError'' ''Invalid input, x is constant'')"
proof -
  have "csv_col ex_ic_frame ''price_spread_ic0_ic2'' = Inr [Some 20, Some 20, Some 20]"
    by (simp add: csv_col_def ex_ic_frame_def)
  moreover have "sm_adfuller ex_world = ex_adfuller"
    by (simp add: ex_world_def)
  ultimately show ?thesis
    by (simp only: test_column_def ex_labels ex_tests ebind_Inr ebind_Inl)
qed

lemma ex_family_ic:
  "analyze_spread_combinations ex_world ''ic'' =
     Inl (Raise ''ValueError'' ''Invalid input, x is constant'')"
  by (simp add: analyze_spread_combinations_def ex_load_ic ex_cols_ic ex_column_ic1
      ex_column_ic2)

lemma ex_family_im:
  "analyze_spread_combinations ex_world ''im'' =
     Inl (Raise ''FileNotFoundError'' ''data/im_spread.csv'')"
  by (simp add: analyze_spread_combinations_def load_data_def ex_world_def ex_case)

lemma ex_family_if:
  "analyze_spread_combinations ex_world ''if'' =
     Inr [(''if0-if1'', ex_result ''if0-if1'' 0.0076), (''if0-if2'', ex_result ''if0-if2'' 0.62)]"
proof -
  define df :: "(string, real option) csv" where
    "df = \<lparr>csv_dates = Some [''2024-01-03'', ''2024-01-04'', ''2024-01-05'', ''2024-01-08''],
           csv_cols =
             [(''close_if0'', [Some 3430.4, Some 3425, Some 3431, Some 3440.2]),
              (''close_if1'', [Some 3420.6, Some 3419.8, None, Some 3433.1]),
              (''price_spread_if0_if1'', [Some 9.8, Some 5.2, None, Some 7.1]),
              (''price_spread_if0_if2'', [Some 25.4, Some 23.8, Some 24, Some 31.2])]\<rparr>"
  have l: "load_data ex_world ''if'' = Inr df"
    by (simp add: load_data_def ex_world_def ex_spread_files_def ex_case df_def)
  have c: "spread_cols df = [''price_spread_if0_if1'', ''price_spread_if0_if2'']"
    by (simp add: spread_cols_def csv_columns_def startswith_def df_def)
  have a: "sm_adfuller ex_world = ex_adfuller"
    by (simp add: ex_world_def)
  have s: "csv_col df ''price_spread_if0_if1'' = Inr [Some 9.8, Some 5.2, None, Some 7.1]"
    "csv_col df ''price_spread_if0_if2'' = Inr [Some 25.4, Some 23.8, Some 24, Some 31.2]"
    by (simp_all add: csv_col_def df_def)
  have t: "test_column ex_world df ''price_spread_if0_if1'' =
             Inr (''if0-if1'', ex_result ''if0-if1'' 0.0076)"
    "test_column ex_world df ''price_spread_if0_if2'' =
             Inr (''if0-if2'', ex_result ''if0-if2'' 0.62)"
    by (simp_all only: test_column_def ex_labels ex_tests ebind_Inr s a)
  show ?thesis
    by (simp add: analyze_spread_combinations_def l c t)
qed

lemma ex_family_ih:
  "analyze_spread_combinations ex_world ''ih'' =
     Inr [(''ih0-ih1'', ex_result ''ih0-ih1'' 0.0076)]"
proof -
  define df :: "(string, real option) csv" where
    "df = \<lparr>csv_dates = Some [''2024-01-03'', ''2024-01-04'', ''2024-01-05''],
           csv_cols = [(''price_spread_ih0_ih1'', [Some 4.4, Some 4.6, Some 4.1])]\<rparr>"
  have l: "load_data ex_world ''ih'' = Inr df"
    by (simp add: load_data_def ex_world_def ex_spread_files_def ex_case df_def)
  have c: "spread_cols df = [''price_spread_ih0_ih1'']"
    by (simp add: spread_cols_def csv_columns_def startswith_def df_def)
  have a: "sm_adfuller ex_world = ex_adfuller"
    by (simp add: ex_world_def)
  have s: "csv_col df ''price_spread_ih0_ih1'' = Inr [Some 4.4, Some 4.6, Some 4.1]"
    by (simp add: csv_col_def df_def)
  have t: "test_column ex_world df ''price_spread_ih0_ih1'' =
             Inr (''ih0-ih1'', ex_result ''ih0-ih1'' 0.0076)"
    by (simp only: test_column_def ex_labels ex_tests ebind_Inr s a)
  show ?thesis
    by (simp add: analyze_spread_combinations_def l c t)
qed

lemma ex_batch: "foldl (collect ex_world) [] [''if'', ''ih'', ''ic'', ''im''] = ex_results"
proof -
  have 1: "collect ex_world [] ''if'' =
      [(''IF'', [(''if0-if1'', ex_result ''if0-if1'' 0.0076),
                 (''if0-if2'', ex_result ''if0-if2'' 0.62)])]"
    by (simp add: collect_Inr [OF ex_family_if] upper_if)
  have 2: "collect ex_world
      [(''IF'', [(''if0-if1'', ex_result ''if0-if1'' 0.0076),
                 (''if0-if2'', ex_result ''if0-if2'' 0.62)])] ''ih'' = ex_results"
    by (simp add: collect_Inr [OF ex_family_ih] ex_case ex_results_def)
  have 3: "collect ex_world ex_results ''ic'' = ex_results"
    by (rule collect_Inl [OF ex_family_ic])
  have 4: "collect ex_world ex_results ''im'' = ex_results"
    by (rule collect_Inl [OF ex_family_im])
  show ?thesis
    by (simp only: foldl.simps 1 2 3 4)
qed

lemma ex_batch_run:
  "analyze_all_futures ex_world ex_analyzer =
     Inr (ex_results, ex_analyzer\<lparr>results := ex_results\<rparr>)"
proof -
  have "futures_types ex_analyzer = [''if'', ''ih'', ''ic'', ''im'']"
    by (simp add: ex_analyzer_eq)
  then show ?thesis
    by (simp only: analyze_all_futures_eq ex_batch)
qed

lemma ex_reachable: "reachable ex_world ex_analyzer"
  unfolding ex_analyzer_def by (rule reach_init)

lemma ex_ascii: "list_all ascii_lower (futures_types ex_analyzer)"
proof -
  have "list_all ascii_lower [''if'', ''ih'', ''ic'', ''im'']"
    by code_simp
  then show ?thesis
    by (simp only: ex_analyzer_eq analyzer.simps)
qed

lemma ex_lookups:
  "map_of ex_results ''IF'' =
     Some [(''if0-if1'', ex_result ''if0-if1'' 0.0076), (''if0-if2'', ex_result ''if0-if2'' 0.62)]"
  "map_of ex_results ''IC'' = None" "map_of ex_results ''IM'' = None"
  by (simp_all add: ex_results_def)

text \<open>The witnesses below apply C4 and C7 to the example world.\<close>

theorem aggregation_isolation_witness:
  "list_all ascii_lower (futures_types ex_analyzer) \<and>
   analyze_all_futures ex_world ex_analyzer =
     Inr (ex_results, ex_analyzer\<lparr>results := ex_results\<rparr>) \<and>
   analyze_spread_combinations ex_world ''if'' =
     Inr [(''if0-if1'', ex_result ''if0-if1'' 0.0076), (''if0-if2'', ex_result ''if0-if2'' 0.62)] \<and>
   map_of ex_results (str_upper ''if'') =
     Some [(''if0-if1'', ex_result ''if0-if1'' 0.0076), (''if0-if2'', ex_result ''if0-if2'' 0.62)] \<and>
   analyze_spread_combinations ex_world ''im'' =
     Inl (Raise ''FileNotFoundError'' ''data/im_spread.csv'') \<and>
   map_of ex_results (str_upper ''im'') = None \<and>
   fst ` set ex_results = {''IF'', ''IH''}"
proof -
  from aggregation_isolation [OF ex_ascii] obtain all_results where
    r: "analyze_all_futures ex_world ex_analyzer =
          Inr (all_results, ex_analyzer\<lparr>results := all_results\<rparr>)"
    and s: "\<forall>ft \<in> set (futures_types ex_analyzer). \<forall>r.
              analyze_spread_combinations ex_world ft = Inr r \<longrightarrow>
                map_of all_results (str_upper ft) = Some r"
    and f: "\<forall>ft \<in> set (futures_types ex_analyzer). \<forall>e.
              analyze_spread_combinations ex_world ft = Inl e \<longrightarrow>
                map_of all_results (str_upper ft) = None"
    by blast
  from r have a: "all_results = ex_results"
    by (simp add: ex_batch_run)
  have m: "''if'' \<in> set (futures_types ex_analyzer)" "''im'' \<in> set (futures_types ex_analyzer)"
    by (simp_all add: ex_analyzer_eq)
  from s m(1) ex_family_if have 1: "map_of ex_results (str_upper ''if'') =
     Some [(''if0-if1'', ex_result ''if0-if1'' 0.0076), (''if0-if2'', ex_result ''if0-if2'' 0.62)]"
    unfolding a by blast
  from f m(2) ex_family_im have 2: "map_of ex_results (str_upper ''im'') = None"
    unfolding a by blast
  have 3: "fst ` set ex_results = {''IF'', ''IH''}"
    by (simp add: ex_results_def)
  show ?thesis
    by (intro conjI) (rule ex_ascii ex_batch_run ex_family_if ex_family_im 1 2 3)+
qed

theorem pair_failure_aborts_family_witness:
  "list_all ascii_lower (futures_types ex_analyzer) \<and>
   load_data ex_world ''ic'' = Inr ex_ic_frame \<and>
   spread_cols ex_ic_frame = [''price_spread_ic0_ic1'', ''price_spread_ic0_ic2''] \<and>
   test_column ex_world ex_ic_frame ''price_spread_ic0_ic1'' =
     Inr (''ic0-ic1'', ex_result ''ic0-ic1'' 0.0076) \<and>
   test_column ex_world ex_ic_frame ''price_spread_ic0_ic2'' =
     Inl (Raise ''ValueError'' ''Invalid input, x is constant'') \<and>
   (\<exists>e'. analyze_spread_combinations ex_world ''ic'' = Inl e') \<and>
   analyze_all_futures ex_world ex_analyzer =
     Inr (ex_results, ex_analyzer\<lparr>results := ex_results\<rparr>) \<and>
   map_of ex_results (str_upper ''ic'') = None \<and>
   map_of ex_results (str_upper ''if'') =
     Some [(''if0-if1'', ex_result ''if0-if1'' 0.0076), (''if0-if2'', ex_result ''if0-if2'' 0.62)]"
proof -
  have m: "''ic'' \<in> set (futures_types ex_analyzer)" "''if'' \<in> set (futures_types ex_analyzer)"
    by (simp_all add: ex_analyzer_eq)
  have c: "''price_spread_ic0_ic2'' \<in> set (spread_cols ex_ic_frame)"
    by (simp add: ex_cols_ic)
  note th = pair_failure_aborts_family [OF ex_ascii m(1) ex_load_ic c ex_column_ic2]
  from th have 1: "\<exists>e'. analyze_spread_combinations ex_world ''ic'' = Inl e'"
    by (rule conjunct1)
  from th obtain all_results where
    r: "analyze_all_futures ex_world ex_analyzer =
          Inr (all_results, ex_analyzer\<lparr>results := all_results\<rparr>)"
    and n: "map_of all_results (str_upper ''ic'') = None"
    and s: "\<forall>ft' \<in> set (futures_types ex_analyzer). \<forall>r.
               analyze_spread_combinations ex_world ft' = Inr r \<longrightarrow>
                 map_of all_results (str_upper ft') = Some r"
    by blast
  from r have a: "all_results = ex_results"
    by (simp add: ex_batch_run)
  from n have 2: "map_of ex_results (str_upper ''ic'') = None"
    unfolding a .
  from s m(2) ex_family_if have 3: "map_of ex_results (str_upper ''if'') =
     Some [(''if0-if1'', ex_result ''if0-if1'' 0.0076), (''if0-if2'', ex_result ''if0-if2'' 0.62)]"
    unfolding a by blast
  show ?thesis
    by (intro conjI)
      (rule ex_ascii ex_load_ic ex_cols_ic ex_column_ic1 ex_column_ic2 1 ex_batch_run 2 3)+
qed


subsection \<open>The summary table\<close>

text \<open>
  C10.  On an analyzer whose results mapping is empty, \<open>generate_summary_table\<close> first
  runs \<open>analyze_all_futures\<close>: it returns the summary of that batch, the same table and
  analyzer as a call after an explicit \<open>analyze_all_futures\<close>.  On a non-empty mapping it
  summarises the stored results and leaves the analyzer as it is.
\<close>

theorem summary_runs_batch_when_empty:
  "(results self = [] \<longrightarrow>
      (\<exists>all_results self1.
         analyze_all_futures w self = Inr (all_results, self1) \<and>
         generate_summary_table w self = Inr (summary_data all_results, self1) \<and>
         generate_summary_table w self = generate_summary_table w self1)) \<and>
   (results self \<noteq> [] \<longrightarrow>
      generate_summary_table w self = Inr (summary_data (results self), self))"
proof (intro conjI impI)
  let ?all = "foldl (collect w) [] (futures_types self)"
  let ?self1 = "self\<lparr>results := ?all\<rparr>"
  assume e: "results self = []"
  have a: "analyze_all_futures w self = Inr (?all, ?self1)"
    by (rule analyze_all_futures_eq)
  have g: "generate_summary_table w self = Inr (summary_data ?all, ?self1)"
    using e by (simp add: generate_summary_table_eq)
  have "generate_summary_table w ?self1 = Inr (summary_data ?all, ?self1)"
    by (cases "?all = []") (simp_all add: generate_summary_table_eq)
  with a g show "\<exists>all_results self1.
         analyze_all_futures w self = Inr (all_results, self1) \<and>
         generate_summary_table w self = Inr (summary_data all_results, self1) \<and>
         generate_summary_table w self = generate_summary_table w self1"
    by simp
next
  assume "results self \<noteq> []"
  then show "generate_summary_table w self = Inr (summary_data (results self), self)"
    by (simp add: generate_summary_table_eq)
qed

subsection \<open>Well-formed results\<close>

lemma list_all_dict_set:
  "list_all P d \<Longrightarrow> P (k, v) \<Longrightarrow> list_all P (dict_set d k v)"
  by (induction d) auto

lemma for_each_invariant:
  assumes "\<And>s x s'. I s \<Longrightarrow> body s x = Inr s' \<Longrightarrow> I s'"
    and "I s" and "for_each xs body s = Inr r"
  shows "I r"
  using assms(2,3)
proof (induction xs arbitrary: s)
  case Nil
  then show ?case by simp
next
  case (Cons x xs)
  from Cons.prems(2) obtain s' where b: "body s x = Inr s'"
    and r: "for_each xs body s' = Inr r"
    by (auto simp: ebind_eq_Inr)
  from assms(1) [OF Cons.prems(1) b] r show ?case
    by (rule Cons.IH)
qed

lemma family_results_distinct:
  assumes "analyze_spread_combinations w ft = Inr r"
  shows "distinct (map fst r)"
proof -
  from assms obtain df where
    f: "for_each (spread_cols df)
          (\<lambda>results col.
             ebind (test_column w df col) (\<lambda>(name, result).
             Inr (dict_set results name result)))
          [] = Inr r"
    by (auto simp: analyze_spread_combinations_def ebind_eq_Inr)
  show ?thesis
  proof (rule for_each_invariant [where I = "\<lambda>d. distinct (map fst d)", OF _ _ f])
    show "distinct (map fst [])" by simp
  next
    fix s :: "(string \<times> adf_result) list" and x s'
    assume "distinct (map fst s)"
      and "ebind (test_column w df x) (\<lambda>(name, result). Inr (dict_set s name result)) = Inr s'"
    then show "distinct (map fst s')"
      by (auto simp: ebind_eq_Inr distinct_dict_set)
  qed
qed

lemma wf_collect: "wf_results acc \<Longrightarrow> wf_results (collect w acc ft)"
proof (cases "analyze_spread_combinations w ft")
  case (Inl e)
  then show "wf_results acc \<Longrightarrow> wf_results (collect w acc ft)"
    by (simp add: collect_Inl)
next
  case (Inr r)
  assume "wf_results acc"
  then show "wf_results (collect w acc ft)"
    unfolding wf_results_def collect_Inr [OF Inr]
    by (auto intro!: distinct_dict_set list_all_dict_set
        simp: str_upper_idem family_results_distinct [OF Inr])
qed

lemma wf_batch: "wf_results acc \<Longrightarrow> wf_results (foldl (collect w) acc fts)"
  by (induction fts arbitrary: acc) (simp_all add: wf_collect)

lemma wf_empty: "wf_results []"
  by (simp add: wf_results_def)

lemma reachable_wf: "reachable w self \<Longrightarrow> wf_results (results self)"
proof (induction rule: reachable.induct)
  case (reach_init fts)
  then show ?case by (simp add: init_def wf_empty)
next
  case (reach_analyze self r self')
  then show ?case
    using wf_batch [OF wf_empty, of w "futures_types self"]
    by (auto simp: analyze_all_futures_eq)
next
  case (reach_summary self t self')
  then show ?case
    using wf_batch [OF wf_empty, of w "futures_types self"]
    by (auto simp: generate_summary_table_eq split: if_splits)
qed

lemma summary_wf:
  assumes "reachable w self" and "generate_summary_table w self = Inr (table, self')"
  shows "table = summary_data (results self') \<and> wf_results (results self')"
proof (cases "results self = []")
  case True
  with assms(2) show ?thesis
    using wf_batch [OF wf_empty, of w "futures_types self"]
    by (auto simp: generate_summary_table_eq)
next
  case False
  with assms(2) reachable_wf [OF assms(1)] show ?thesis
    by (auto simp: generate_summary_table_eq)
qed

subsection \<open>Keys of the summary rows\<close>

lemma row_key_make_row: "row_key (make_row ft name r) = (str_upper ft, name)"
  by (simp add: row_key_def make_row_def)

lemma result_keys_Cons:
  "result_keys ((ft, contracts) # res) = map (\<lambda>(name, r). (ft, name)) contracts @ result_keys res"
  by (simp add: result_keys_def)

lemma summary_data_Cons:
  "summary_data ((ft, contracts) # res) =
     map (\<lambda>(name, r). make_row ft name r) contracts @ summary_data res"
  by (simp add: summary_data_def)

lemma wf_results_Cons:
  "wf_results ((ft, contracts) # res) \<longleftrightarrow>
     ft \<notin> fst ` set res \<and> str_upper ft = ft \<and> distinct (map fst contracts) \<and> wf_results res"
  by (auto simp: wf_results_def)

lemma result_keys_family: "(k, n) \<in> set (result_keys res) \<Longrightarrow> k \<in> fst ` set res"
  by (force simp: result_keys_def)

lemma summary_keys: "wf_results res \<Longrightarrow> map row_key (summary_data res) = result_keys res"
proof (induction res)
  case Nil
  then show ?case by (simp add: summary_data_def result_keys_def)
next
  case (Cons a res)
  obtain ft contracts where a: "a = (ft, contracts)" by (cases a)
  from Cons.prems have u: "str_upper ft = ft" and w: "wf_results res"
    by (simp_all add: a wf_results_Cons)
  have "map row_key (map (\<lambda>(name, r). make_row ft name r) contracts) =
          map (\<lambda>(name, r). (ft, name)) contracts"
    by (simp add: row_key_make_row u case_prod_unfold)
  with Cons.IH [OF w] show ?case
    by (simp add: a summary_data_Cons result_keys_Cons)
qed

lemma distinct_result_keys: "wf_results res \<Longrightarrow> distinct (result_keys res)"
proof (induction res)
  case Nil
  then show ?case by (simp add: result_keys_def)
next
  case (Cons a res)
  obtain ft contracts where a: "a = (ft, contracts)" by (cases a)
  from Cons.prems have n: "ft \<notin> fst ` set res" and d: "distinct (map fst contracts)"
    and w: "wf_results res"
    by (simp_all add: a wf_results_Cons)
  have "map fst contracts = map snd (map (\<lambda>(name, r). (ft, name)) contracts)"
    by (simp add: case_prod_unfold comp_def)
  with d have 1: "distinct (map (\<lambda>(name, r). (ft, name)) contracts)"
    by (metis distinct_map)
  have 2: "set (map (\<lambda>(name, r). (ft, name)) contracts) \<inter> set (result_keys res) = {}"
    using n by (auto dest: result_keys_family)
  from 1 2 Cons.IH [OF w] show ?case
    by (simp add: a result_keys_Cons)
qed

lemma summary_data_mem:
  "row \<in> set (summary_data res) \<Longrightarrow>
     \<exists>ft contracts name r. (ft, contracts) \<in> set res \<and> (name, r) \<in> set contracts \<and>
        row = make_row ft name r"
  by (force simp: summary_data_def)

subsection \<open>Four decimals\<close>

lemma is_digit_char: "m < 10 \<Longrightarrow> is_digit (char_of (48 + m :: nat))"
proof -
  assume m: "m < 10"
  then have "(48 + m) mod 256 = 48 + m"
    by simp
  then have "(of_char (char_of (48 + m)) :: nat) = 48 + m"
    by simp
  with m show ?thesis
    unfolding is_digit_def by linarith
qed

lemma str_nat_digits: "list_all is_digit (str_nat n)"
proof (induction n rule: str_nat.induct)
  case (1 n)
  show ?case
  proof (cases "n < 10")
    case True
    then show ?thesis
      using is_digit_char [of n] by (subst str_nat.simps) simp
  next
    case False
    then show ?thesis
      using 1 is_digit_char [of "n mod 10"] by (subst str_nat.simps) simp
  qed
qed

lemma str_nat_nonempty: "str_nat n \<noteq> []"
  by (subst str_nat.simps) simp

lemma not_digit_minus: "is_digit c \<Longrightarrow> c \<noteq> CHR ''-''"
  by (auto simp: is_digit_def)

lemma fixed4_plain:
  assumes "whole \<noteq> []" and "list_all is_digit whole"
    and "length fraction = 4" and "list_all is_digit fraction"
  shows "fixed4 (whole @ CHR ''.'' # fraction)"
proof -
  from assms(1) obtain c r where w: "whole = c # r"
    by (cases whole) auto
  with assms(2) have "c \<noteq> CHR ''-''"
    by (simp add: not_digit_minus)
  with assms show ?thesis
    by (simp add: fixed4_def w)
qed

lemma fixed4_minus:
  assumes "whole \<noteq> []" and "list_all is_digit whole"
    and "length fraction = 4" and "list_all is_digit fraction"
  shows "fixed4 (CHR ''-'' # whole @ CHR ''.'' # fraction)"
  using assms by (simp add: fixed4_def)

lemma fixed4_decimal_4f: "fixed4 (decimal_4f x)"
proof -
  define n where "n = nat (round_half_even (\<bar>x\<bar> * 10000))"
  let ?fr = "[char_of (48 + n div 1000 mod 10), char_of (48 + n div 100 mod 10),
              char_of (48 + n div 10 mod 10), char_of (48 + n mod 10)]"
  have f: "list_all is_digit ?fr" "length ?fr = 4"
    by (simp_all add: is_digit_char)
  have e: "decimal_4f x = (if x < 0 then ''-'' else []) @ str_nat (n div 10000) @ CHR ''.'' # ?fr"
    by (simp add: decimal_4f_def n_def Let_def)
  show ?thesis
  proof (cases "x < 0")
    case True
    then have "decimal_4f x = CHR ''-'' # str_nat (n div 10000) @ CHR ''.'' # ?fr"
      by (simp add: e)
    then show ?thesis
      using fixed4_minus [OF str_nat_nonempty str_nat_digits f(2) f(1)] by simp
  next
    case False
    then have "decimal_4f x = str_nat (n div 10000) @ CHR ''.'' # ?fr"
      by (simp add: e)
    then show ?thesis
      using fixed4_plain [OF str_nat_nonempty str_nat_digits f(2) f(1)] by simp
  qed
qed

lemma fixed4_negative_zero: "fixed4 ''-0.0000''"
  by (simp add: fixed4_def is_digit_def)

lemma fixed4_format_4f: "isfinite x \<Longrightarrow> fixed4 (format_4f x)"
  by (cases x) (simp_all add: fixed4_decimal_4f fixed4_negative_zero)

lemma not_fixed4_words: "\<not> fixed4 ''nan''" "\<not> fixed4 ''inf''" "\<not> fixed4 ''-inf''"
  by (simp_all add: fixed4_def is_digit_def)

lemma nan_row: "row_adf (make_row ft name (r\<lparr>adf_statistic := NaN\<rparr>)) = ''nan''"
  by (simp add: make_row_def)

subsection \<open>Rows of the summary table\<close>

lemma summary_data_entries:
  "summary_data res = map (\<lambda>(ft, name, r). make_row ft name r) (result_entries res)"
  by (induction res) (simp_all add: summary_data_def result_entries_def case_prod_unfold comp_def)

lemma result_entries_mem:
  "(ft, name, r) \<in> set (result_entries res) \<Longrightarrow>
     \<exists>contracts. (ft, contracts) \<in> set res \<and> (name, r) \<in> set contracts"
  by (force simp: result_entries_def)

text \<open>
  C9.  The summary table of an analyzer made by the constructor and the methods, with
  family symbols of ASCII text, has one row for each (family, pair) entry of the
  results, in their order, and no key twice.  The row of an entry holds the family key,
  the pair label, the statistic, the p-value and the three critical values as \<open>.4f\<close>
  writes them, and the verdict: the bytes \<open>E6 98 AF\<close> (U+662F, yes) when the result is
  stationary and the bytes \<open>E5 90 A6\<close> (U+5426, no) when it is not.  What \<open>.4f\<close> writes
  for a finite number is a string with exactly four decimals; for NaN and the
  infinities, should \<open>adfuller\<close> return one, it writes \<open>nan\<close>, \<open>inf\<close> or \<open>-inf\<close>.
\<close>

theorem summary_table_shape:
  assumes "reachable w self" and "list_all ascii_lower (futures_types self)"
    and "generate_summary_table w self = Inr (table, self')"
  shows "map row_key table = result_keys (results self') \<and>
         distinct (map row_key table) \<and>
         list_all2
           (\<lambda>row (ft, name, r).
              row_family row = ft \<and> row_pair row = name \<and>
              row_adf row = format_4f (adf_statistic r) \<and>
              row_p row = format_4f (p_value r) \<and>
              row_crit1 row = format_4f (crit_1pct (critical_values r)) \<and>
              row_crit5 row = format_4f (crit_5pct (critical_values r)) \<and>
              row_crit10 row = format_4f (crit_10pct (critical_values r)) \<and>
              row_verdict row =
                (if is_stationary r then [CHR 0xE6, CHR 0x98, CHR 0xAF]
                 else [CHR 0xE5, CHR 0x90, CHR 0xA6]) \<and>
              (isfinite (adf_statistic r) \<longrightarrow> fixed4 (row_adf row)) \<and>
              (isfinite (p_value r) \<longrightarrow> fixed4 (row_p row)) \<and>
              (isfinite (crit_1pct (critical_values r)) \<longrightarrow> fixed4 (row_crit1 row)) \<and>
              (isfinite (crit_5pct (critical_values r)) \<longrightarrow> fixed4 (row_crit5 row)) \<and>
              (isfinite (crit_10pct (critical_values r)) \<longrightarrow> fixed4 (row_crit10 row)))
           table (result_entries (results self'))"
proof -
  from summary_wf [OF assms(1,3)] have t: "table = summary_data (results self')"
    and w: "wf_results (results self')"
    by simp_all
  have k: "map row_key table = result_keys (results self')"
    unfolding t using w by (rule summary_keys)
  have d: "distinct (map row_key table)"
    unfolding k using w by (rule distinct_result_keys)
  have u: "str_upper ft = ft" if "(ft, name, r) \<in> set (result_entries (results self'))"
    for ft name r
  proof -
    from result_entries_mem [OF that] obtain contracts where
      "(ft, contracts) \<in> set (results self')"
      by blast
    with w show ?thesis
      by (auto simp: wf_results_def list_all_iff)
  qed
  have e: "list_all2
           (\<lambda>row (ft, name, r).
              row_family row = ft \<and> row_pair row = name \<and>
              row_adf row = format_4f (adf_statistic r) \<and>
              row_p row = format_4f (p_value r) \<and>
              row_crit1 row = format_4f (crit_1pct (critical_values r)) \<and>
              row_crit5 row = format_4f (crit_5pct (critical_values r)) \<and>
              row_crit10 row = format_4f (crit_10pct (critical_values r)) \<and>
              row_verdict row =
                (if is_stationary r then [CHR 0xE6, CHR 0x98, CHR 0xAF]
                 else [CHR 0xE5, CHR 0x90, CHR 0xA6]) \<and>
              (isfinite (adf_statistic r) \<longrightarrow> fixed4 (row_adf row)) \<and>
              (isfinite (p_value r) \<longrightarrow> fixed4 (row_p row)) \<and>
              (isfinite (crit_1pct (critical_values r)) \<longrightarrow> fixed4 (row_crit1 row)) \<and>
              (isfinite (crit_5pct (critical_values r)) \<longrightarrow> fixed4 (row_crit5 row)) \<and>
              (isfinite (crit_10pct (critical_values r)) \<longrightarrow> fixed4 (row_crit10 row)))
           table (result_entries (results self'))"
    unfolding t summary_data_entries list_all2_map1 list_all2_same
    using u by (auto simp: make_row_def verdict_yes_def verdict_no_def fixed4_format_4f)
  from k d e show ?thesis
    by (intro conjI)
qed

lemma digit_chars:
  "char_of (48::nat) = CHR ''0''" "char_of (49::nat) = CHR ''1''" "char_of (50::nat) = CHR ''2''"
  "char_of (51::nat) = CHR ''3''" "char_of (52::nat) = CHR ''4''" "char_of (53::nat) = CHR ''5''"
  "char_of (54::nat) = CHR ''6''" "char_of (55::nat) = CHR ''7''" "char_of (56::nat) = CHR ''8''"
  "char_of (57::nat) = CHR ''9''"
  by code_simp+

lemma ex_roundings:
  "round_half_even (\<bar>- 3.51268\<bar> * 10000) = 35127"
  "round_half_even (\<bar>0.0076\<bar> * 10000) = 76"
  "round_half_even (\<bar>0.62\<bar> * 10000) = 6200"
  "round_half_even (\<bar>- 3.4369\<bar> * 10000) = 34369"
  "round_half_even (\<bar>- 2.8644\<bar> * 10000) = 28644"
  "round_half_even (\<bar>- 2.5683\<bar> * 10000) = 25683"
  by (simp_all add: round_half_even_def Let_def)

lemma ex_decimals:
  "decimal_4f (- 3.51268) = ''-3.5127''"
  "decimal_4f 0.0076 = ''0.0076''"
  "decimal_4f 0.62 = ''0.6200''"
  "decimal_4f (- 3.4369) = ''-3.4369''"
  "decimal_4f (- 2.8644) = ''-2.8644''"
  "decimal_4f (- 2.5683) = ''-2.5683''"
  unfolding decimal_4f_def ex_roundings
  by (simp_all add: str_nat_small digit_chars)

lemma ex_formats:
  "format_4f (Finite (- 3.51268)) = ''-3.5127''"
  "format_4f (Finite 0.0076) = ''0.0076''"
  "format_4f (Finite 0.62) = ''0.6200''"
  "format_4f (Finite (- 3.4369)) = ''-3.4369''"
  "format_4f (Finite (- 2.8644)) = ''-2.8644''"
  "format_4f (Finite (- 2.5683)) = ''-2.5683''"
  by (simp_all only: format_4f.simps ex_decimals)

lemma ex_result_fields:
  "adf_statistic (ex_result name p) = Finite (- 3.51268)"
  "p_value (ex_result name p) = Finite p"
  "crit_1pct (critical_values (ex_result name p)) = Finite (- 3.4369)"
  "crit_5pct (critical_values (ex_result name p)) = Finite (- 2.8644)"
  "crit_10pct (critical_values (ex_result name p)) = Finite (- 2.5683)"
  "is_stationary (ex_result name p) = (p \<le> 0.05)"
  by (simp_all add: ex_result_def)

lemma ex_verdicts: "((0.0076::real) \<le> 0.05) = True" "((0.62::real) \<le> 0.05) = False"
  by simp_all

lemma ex_upper: "str_upper ''IF'' = ''IF''" "str_upper ''IH'' = ''IH''"
  by code_simp+

lemma ex_rows:
  "make_row ''IF'' ''if0-if1'' (ex_result ''if0-if1'' 0.0076) = ex_summary ! 0"
  "make_row ''IF'' ''if0-if2'' (ex_result ''if0-if2'' 0.62) = ex_summary ! 1"
  "make_row ''IH'' ''ih0-ih1'' (ex_result ''ih0-ih1'' 0.0076) = ex_summary ! 2"
  unfolding make_row_def ex_result_fields ex_formats ex_verdicts ex_upper if_True if_False
    verdict_yes_def verdict_no_def
  by (simp_all add: ex_summary_def)

lemma ex_summary_data: "summary_data ex_results = ex_summary"
proof -
  have "summary_data ex_results =
          [make_row ''IF'' ''if0-if1'' (ex_result ''if0-if1'' 0.0076),
           make_row ''IF'' ''if0-if2'' (ex_result ''if0-if2'' 0.62),
           make_row ''IH'' ''ih0-ih1'' (ex_result ''ih0-ih1'' 0.0076)]"
    unfolding summary_data_def ex_results_def
    by (simp only: list.map concat.simps append.simps prod.case)
  then have "summary_data ex_results = [ex_summary ! 0, ex_summary ! 1, ex_summary ! 2]"
    by (simp only: ex_rows)
  then show ?thesis
    by (simp add: ex_summary_def)
qed

lemma ex_summary_run:
  "generate_summary_table ex_world ex_analyzer =
     Inr (ex_summary, ex_analyzer\<lparr>results := ex_results\<rparr>)"
proof -
  have "results ex_analyzer = []" "futures_types ex_analyzer = [''if'', ''ih'', ''ic'', ''im'']"
    by (simp_all add: ex_analyzer_eq)
  then show ?thesis
    by (simp only: generate_summary_table_eq ex_batch ex_summary_data simp_thms if_True)
qed

lemma ex_summary_rerun:
  "generate_summary_table ex_world (ex_analyzer\<lparr>results := ex_results\<rparr>) =
     Inr (ex_summary, ex_analyzer\<lparr>results := ex_results\<rparr>)"
proof -
  have "results (ex_analyzer\<lparr>results := ex_results\<rparr>) = ex_results" "ex_results \<noteq> []"
    by (simp_all add: ex_results_def)
  then show ?thesis
    by (simp only: generate_summary_table_eq ex_summary_data simp_thms if_False)
qed

lemma ex_entries:
  "result_entries ex_results =
     [(''IF'', ''if0-if1'', ex_result ''if0-if1'' 0.0076),
      (''IF'', ''if0-if2'', ex_result ''if0-if2'' 0.62),
      (''IH'', ''ih0-ih1'', ex_result ''ih0-ih1'' 0.0076)]"
  unfolding result_entries_def ex_results_def
  by (simp only: list.map concat.simps append.simps prod.case)

lemma ex_finite:
  "isfinite (adf_statistic (ex_result name p))" "isfinite (p_value (ex_result name p))"
  "isfinite (crit_1pct (critical_values (ex_result name p)))"
  "isfinite (crit_5pct (critical_values (ex_result name p)))"
  "isfinite (crit_10pct (critical_values (ex_result name p)))"
  by (simp_all add: ex_result_def)

theorem summary_table_shape_witness:
  "list_all ascii_lower (futures_types ex_analyzer) \<and>
   generate_summary_table ex_world ex_analyzer =
     Inr (ex_summary, ex_analyzer\<lparr>results := ex_results\<rparr>) \<and>
   map row_key ex_summary = [(''IF'', ''if0-if1''), (''IF'', ''if0-if2''), (''IH'', ''ih0-ih1'')] \<and>
   distinct (map row_key ex_summary) \<and>
   list_all (\<lambda>row. fixed4 (row_adf row) \<and> fixed4 (row_p row) \<and> fixed4 (row_crit1 row) \<and>
               fixed4 (row_crit5 row) \<and> fixed4 (row_crit10 row)) ex_summary \<and>
   map row_adf ex_summary = [''-3.5127'', ''-3.5127'', ''-3.5127''] \<and>
   map row_p ex_summary = [''0.0076'', ''0.6200'', ''0.0076''] \<and>
   map row_verdict ex_summary =
     [[CHR 0xE6, CHR 0x98, CHR 0xAF], [CHR 0xE5, CHR 0x90, CHR 0xA6], [CHR 0xE6, CHR 0x98, CHR 0xAF]]"
proof -
  note th = summary_table_shape [OF ex_reachable ex_ascii ex_summary_run]
  have r: "results (ex_analyzer\<lparr>results := ex_results\<rparr>) = ex_results"
    by simp
  have k: "result_keys ex_results = [(''IF'', ''if0-if1''), (''IF'', ''if0-if2''), (''IH'', ''ih0-ih1'')]"
    by (simp add: result_keys_def ex_results_def)
  from th have 1: "map row_key ex_summary =
      [(''IF'', ''if0-if1''), (''IF'', ''if0-if2''), (''IH'', ''ih0-ih1'')]"
    unfolding r k by (rule conjunct1)
  from th have 2: "distinct (map row_key ex_summary)"
    by (rule conjunct1 [OF conjunct2])
  from th have "list_all2
      (\<lambda>row (ft, name, r).
          (isfinite (adf_statistic r) \<longrightarrow> fixed4 (row_adf row)) \<and>
          (isfinite (p_value r) \<longrightarrow> fixed4 (row_p row)) \<and>
          (isfinite (crit_1pct (critical_values r)) \<longrightarrow> fixed4 (row_crit1 row)) \<and>
          (isfinite (crit_5pct (critical_values r)) \<longrightarrow> fixed4 (row_crit5 row)) \<and>
          (isfinite (crit_10pct (critical_values r)) \<longrightarrow> fixed4 (row_crit10 row)))
      ex_summary (result_entries ex_results)"
    unfolding r by (auto elim!: list_all2_mono)
  then have 3: "list_all (\<lambda>row. fixed4 (row_adf row) \<and> fixed4 (row_p row) \<and>
      fixed4 (row_crit1 row) \<and> fixed4 (row_crit5 row) \<and> fixed4 (row_crit10 row)) ex_summary"
    unfolding ex_entries by (simp add: ex_summary_def ex_finite)
  have 4: "map row_adf ex_summary = [''-3.5127'', ''-3.5127'', ''-3.5127'']"
    "map row_p ex_summary = [''0.0076'', ''0.6200'', ''0.0076'']"
    "map row_verdict ex_summary =
       [[CHR 0xE6, CHR 0x98, CHR 0xAF], [CHR 0xE5, CHR 0x90, CHR 0xA6], [CHR 0xE6, CHR 0x98, CHR 0xAF]]"
    by (simp_all add: ex_summary_def)
  show ?thesis
    by (intro conjI) (rule ex_ascii ex_summary_run 1 2 3 4)+
qed

theorem summary_runs_batch_when_empty_witness:
  "results ex_analyzer = [] \<and>
   analyze_all_futures ex_world ex_analyzer =
     Inr (ex_results, ex_analyzer\<lparr>results := ex_results\<rparr>) \<and>
   generate_summary_table ex_world ex_analyzer =
     Inr (summary_data ex_results, ex_analyzer\<lparr>results := ex_results\<rparr>) \<and>
   generate_summary_table ex_world ex_analyzer =
     generate_summary_table ex_world (ex_analyzer\<lparr>results := ex_results\<rparr>) \<and>
   results (ex_analyzer\<lparr>results := ex_results\<rparr>) = ex_results \<and>
   generate_summary_table ex_world (ex_analyzer\<lparr>results := ex_results\<rparr>) =
     Inr (summary_data ex_results, ex_analyzer\<lparr>results := ex_results\<rparr>)"
proof -
  have e: "results ex_analyzer = []"
    by (simp add: ex_analyzer_eq)
  have r: "results (ex_analyzer\<lparr>results := ex_results\<rparr>) = ex_results"
    by simp
  have n: "results (ex_analyzer\<lparr>results := ex_results\<rparr>) \<noteq> []"
    by (simp add: ex_results_def)
  from summary_runs_batch_when_empty [of ex_analyzer ex_world] e
  obtain all_results self1 where
    a: "analyze_all_futures ex_world ex_analyzer = Inr (all_results, self1)"
    and g: "generate_summary_table ex_world ex_analyzer = Inr (summary_data all_results, self1)"
    and q: "generate_summary_table ex_world ex_analyzer = generate_summary_table ex_world self1"
    by blast
  from a have s: "all_results = ex_results" "self1 = ex_analyzer\<lparr>results := ex_results\<rparr>"
    by (simp_all add: ex_batch_run)
  from summary_runs_batch_when_empty [of "ex_analyzer\<lparr>results := ex_results\<rparr>" ex_world] n
  have 2: "generate_summary_table ex_world (ex_analyzer\<lparr>results := ex_results\<rparr>) =
     Inr (summary_data ex_results, ex_analyzer\<lparr>results := ex_results\<rparr>)"
    unfolding r by blast
  show ?thesis
    by (intro conjI) (rule e ex_batch_run g [unfolded s] q [unfolded s] r 2)+
qed
subsection \<open>Pair labels\<close>

lemma dict_set_new: "k \<notin> fst ` set d \<Longrightarrow> dict_set d k v = d @ [(k, v)]"
  by (induction d) auto

lemma labels_in_order:
  assumes "for_each cs
             (\<lambda>results col.
                ebind (test_column w df col) (\<lambda>(name, result).
                Inr (dict_set results name result)))
             acc = Inr res"
    and "list_all2 (\<lambda>col label. pair_name col = Inr label) cs labels"
    and "distinct (map fst acc @ labels)"
  shows "map fst res = map fst acc @ labels"
  using assms
proof (induction cs arbitrary: acc labels)
  case Nil
  then show ?case by simp
next
  case (Cons c cs)
  from Cons.prems(2) obtain l ls where labels: "labels = l # ls"
    and pl: "pair_name c = Inr l"
    and rest: "list_all2 (\<lambda>col label. pair_name col = Inr label) cs ls"
    by (auto simp: list_all2_Cons1)
  from Cons.prems(1) obtain name r where t: "test_column w df c = Inr (name, r)"
    and f: "for_each cs
             (\<lambda>results col.
                ebind (test_column w df col) (\<lambda>(name, result).
                Inr (dict_set results name result)))
             (dict_set acc name r) = Inr res"
    by (auto simp: ebind_eq_Inr)
  from test_column_label [OF t] pl have n: "name = l"
    by simp
  from Cons.prems(3) have "l \<notin> fst ` set acc"
    by (auto simp: labels)
  then have d: "dict_set acc l r = acc @ [(l, r)]"
    by (rule dict_set_new)
  have "distinct (map fst (acc @ [(l, r)]) @ ls)"
    using Cons.prems(3) by (simp add: labels)
  from Cons.IH [OF f [unfolded n d] rest this] show ?case
    by (simp add: labels)
qed

lemma family_results_named:
  assumes "analyze_spread_combinations w ft = Inr res"
  shows "list_all (\<lambda>(name, r). series_name r = name) res"
proof -
  from assms obtain df where
    f: "for_each (spread_cols df)
          (\<lambda>results col.
             ebind (test_column w df col) (\<lambda>(name, result).
             Inr (dict_set results name result)))
          [] = Inr res"
    by (auto simp: analyze_spread_combinations_def ebind_eq_Inr)
  show ?thesis
  proof (rule for_each_invariant
      [where I = "list_all (\<lambda>(name, r). series_name r = name)", OF _ _ f])
    show "list_all (\<lambda>(name, r). series_name r = name) []" by simp
  next
    fix s :: "(string \<times> adf_result) list" and x s'
    assume "list_all (\<lambda>(name, r). series_name r = name) s"
      and "ebind (test_column w df x) (\<lambda>(name, result). Inr (dict_set s name result)) = Inr s'"
    then show "list_all (\<lambda>(name, r). series_name r = name) s'"
      by (auto simp: ebind_eq_Inr intro!: list_all_dict_set dest!: test_column_label)
  qed
qed

lemma spread_columns_of_table:
  "filter (\<lambda>c. startswith c ''price_spread'') (''trade_date'' # out_cols ft) =
     [spread_name ft 0 1, spread_name ft 0 2, spread_name ft 0 3,
      spread_name ft 1 2, spread_name ft 1 3, spread_name ft 2 3]"
  by (simp add: out_cols_def startswith_def close_name_def spread_name_def)

lemma labels_distinct:
  "distinct [ft @ str_nat 0 @ ''-'' @ ft @ str_nat 1, ft @ str_nat 0 @ ''-'' @ ft @ str_nat 2,
             ft @ str_nat 0 @ ''-'' @ ft @ str_nat 3, ft @ str_nat 1 @ ''-'' @ ft @ str_nat 2,
             ft @ str_nat 1 @ ''-'' @ ft @ str_nat 3, ft @ str_nat 2 @ ''-'' @ ft @ str_nat 3]"
  by (simp add: str_nat_small)

lemma summary_pairs: "map row_pair (summary_data [(ft, res)]) = map fst res"
  by (simp add: summary_data_def make_row_def case_prod_unfold comp_def)

text \<open>
  C5 as amended.  The table that \<open>process_futures_data\<close> returns for a family has the
  six spread columns \<open>price_spread_<symbol><i>_<symbol><j>\<close>, for \<open>0 \<le> i < j \<le> 3\<close>, and
  they are its columns with the prefix \<open>price_spread\<close>.  When the tester analyses a file
  with these spread columns, for a symbol without an underscore, the keys of the results
  dictionary are the pair labels \<open><symbol><i>-<symbol><j>\<close> (for example \<open>if0-if1\<close>) in
  the order of the columns, every result records its label as its series name, and the
  summary table that an analyzer of this family generates holds the same labels, in the
  same order, in its pair column.
\<close>

theorem pair_label_of_spread_column:
  assumes "CHR ''_'' \<notin> set futures_type"
  shows "(process_futures_data read_csv strptime futures_type = Inr out \<longrightarrow>
            filter (\<lambda>c. startswith c ''price_spread'') (columns out) =
              map (\<lambda>(i, j). ''price_spread_'' @ futures_type @ str_nat i @ ''_'' @
                             futures_type @ str_nat j)
                [(0, 1), (0, 2), (0, 3), (1, 2), (1, 3), (2, 3)]) \<and>
         (load_data w symbol = Inr df \<and>
          spread_cols df =
            map (\<lambda>(i, j). ''price_spread_'' @ futures_type @ str_nat i @ ''_'' @
                           futures_type @ str_nat j)
              [(0, 1), (0, 2), (0, 3), (1, 2), (1, 3), (2, 3)] \<and>
          analyze_spread_combinations w symbol = Inr res \<longrightarrow>
            map fst res =
              map (\<lambda>(i, j). futures_type @ str_nat i @ ''-'' @ futures_type @ str_nat j)
                [(0, 1), (0, 2), (0, 3), (1, 2), (1, 3), (2, 3)] \<and>
            list_all (\<lambda>(name, r). series_name r = name) res \<and>
            (\<exists>table self'.
               generate_summary_table w \<lparr>futures_types = [symbol], results = []\<rparr> =
                 Inr (table, self') \<and>
               map row_pair table =
                 map (\<lambda>(i, j). futures_type @ str_nat i @ ''-'' @ futures_type @ str_nat j)
                   [(0, 1), (0, 2), (0, 3), (1, 2), (1, 3), (2, 3)]))"
proof (intro conjI impI)
  assume "process_futures_data read_csv strptime futures_type = Inr out"
  then have "cols out = out_cols futures_type"
    by (rule process_rows(1))
  then have "columns out = ''trade_date'' # out_cols futures_type"
    by (simp add: columns_def)
  then show "filter (\<lambda>c. startswith c ''price_spread'') (columns out) =
              map (\<lambda>(i, j). ''price_spread_'' @ futures_type @ str_nat i @ ''_'' @
                             futures_type @ str_nat j)
                [(0, 1), (0, 2), (0, 3), (1, 2), (1, 3), (2, 3)]"
    by (simp only: spread_columns_of_table) (simp add: spread_name_def)
next
  assume a: "load_data w symbol = Inr df \<and>
          spread_cols df =
            map (\<lambda>(i, j). ''price_spread_'' @ futures_type @ str_nat i @ ''_'' @
                           futures_type @ str_nat j)
              [(0, 1), (0, 2), (0, 3), (1, 2), (1, 3), (2, 3)] \<and>
          analyze_spread_combinations w symbol = Inr res"
  let ?labels = "[futures_type @ str_nat 0 @ ''-'' @ futures_type @ str_nat 1,
                  futures_type @ str_nat 0 @ ''-'' @ futures_type @ str_nat 2,
                  futures_type @ str_nat 0 @ ''-'' @ futures_type @ str_nat 3,
                  futures_type @ str_nat 1 @ ''-'' @ futures_type @ str_nat 2,
                  futures_type @ str_nat 1 @ ''-'' @ futures_type @ str_nat 3,
                  futures_type @ str_nat 2 @ ''-'' @ futures_type @ str_nat 3]"
  from a have ld: "load_data w symbol = Inr df"
    by (rule conjunct1)
  from a have an: "analyze_spread_combinations w symbol = Inr res"
    by (rule conjunct2 [OF conjunct2])
  from a have "spread_cols df =
            map (\<lambda>(i, j). ''price_spread_'' @ futures_type @ str_nat i @ ''_'' @
                           futures_type @ str_nat j)
              [(0, 1), (0, 2), (0, 3), (1, 2), (1, 3), (2, 3)]"
    by (rule conjunct1 [OF conjunct2])
  then have c: "spread_cols df =
      [spread_name futures_type 0 1, spread_name futures_type 0 2, spread_name futures_type 0 3,
       spread_name futures_type 1 2, spread_name futures_type 1 3, spread_name futures_type 2 3]"
    by (simp only: spread_name_def list.map prod.case)
  have f: "for_each (spread_cols df)
          (\<lambda>results col.
             ebind (test_column w df col) (\<lambda>(name, result).
             Inr (dict_set results name result)))
          [] = Inr res"
    using an unfolding analyze_spread_combinations_def ld ebind_Inr .
  have l: "list_all2 (\<lambda>col label. pair_name col = Inr label) (spread_cols df) ?labels"
    unfolding c by (simp add: pair_name_spread [OF assms])
  have d: "distinct (map fst ([] :: (string \<times> adf_result) list) @ ?labels)"
    using labels_distinct [of futures_type] by simp
  from labels_in_order [OF f l d] show k: "map fst res =
              map (\<lambda>(i, j). futures_type @ str_nat i @ ''-'' @ futures_type @ str_nat j)
                [(0, 1), (0, 2), (0, 3), (1, 2), (1, 3), (2, 3)]"
    by simp
  from an show "list_all (\<lambda>(name, r). series_name r = name) res"
    by (rule family_results_named)
  have "generate_summary_table w \<lparr>futures_types = [symbol], results = []\<rparr> =
          Inr (summary_data [(str_upper symbol, res)],
               \<lparr>futures_types = [symbol], results = [(str_upper symbol, res)]\<rparr>)"
    by (simp add: generate_summary_table_eq collect_Inr [OF an])
  moreover have "map row_pair (summary_data [(str_upper symbol, res)]) =
              map (\<lambda>(i, j). futures_type @ str_nat i @ ''-'' @ futures_type @ str_nat j)
                [(0, 1), (0, 2), (0, 3), (1, 2), (1, 3), (2, 3)]"
    by (simp only: summary_pairs k)
  ultimately show "\<exists>table self'.
               generate_summary_table w \<lparr>futures_types = [symbol], results = []\<rparr> =
                 Inr (table, self') \<and>
               map row_pair table =
                 map (\<lambda>(i, j). futures_type @ str_nat i @ ''-'' @ futures_type @ str_nat j)
                   [(0, 1), (0, 2), (0, 3), (1, 2), (1, 3), (2, 3)]"
    by blast
qed

lemma ex_if_tests:
  "perform_adf_test ex_adfuller [Some 9.8, Some 5.2] name = Inr (ex_result name 0.0076)"
  "perform_adf_test ex_adfuller [Some 25.4, Some 23.8] name = Inr (ex_result name 0.0076)"
  "perform_adf_test ex_adfuller [Some 39.9, Some 39.6] name = Inr (ex_result name 0.0076)"
  "perform_adf_test ex_adfuller [Some 15.6, Some 18.6] name = Inr (ex_result name 0.0076)"
  "perform_adf_test ex_adfuller [Some 30.1, Some 34.4] name = Inr (ex_result name 0.0076)"
  "perform_adf_test ex_adfuller [Some 14.5, Some 15.8] name = Inr (ex_result name 0.0076)"
  by (simp_all add: perform_adf_test_def ex_adfuller_def ex_output_def ex_result_def)

lemma ex_if_labels:
  "pair_name ''price_spread_if0_if1'' = Inr ''if0-if1''"
  "pair_name ''price_spread_if0_if2'' = Inr ''if0-if2''"
  "pair_name ''price_spread_if0_if3'' = Inr ''if0-if3''"
  "pair_name ''price_spread_if1_if2'' = Inr ''if1-if2''"
  "pair_name ''price_spread_if1_if3'' = Inr ''if1-if3''"
  "pair_name ''price_spread_if2_if3'' = Inr ''if2-if3''"
  by (simp_all add: pair_name_def last_two_def)

lemma ex_if_load: "load_data ex_table_world ''if'' = Inr ex_if_frame"
  by (simp add: load_data_def ex_table_world_def ex_case ex_if_frame_def)

lemma ex_if_cols:
  "spread_cols ex_if_frame =
     [''price_spread_if0_if1'', ''price_spread_if0_if2'', ''price_spread_if0_if3'',
      ''price_spread_if1_if2'', ''price_spread_if1_if3'', ''price_spread_if2_if3'']"
  by (simp add: spread_cols_def csv_columns_def startswith_def ex_if_frame_def)

lemma ex_if_family: "analyze_spread_combinations ex_table_world ''if'' = Inr ex_if_results"
proof -
  have a: "sm_adfuller ex_table_world = ex_adfuller"
    by (simp add: ex_table_world_def)
  have s: "csv_col ex_if_frame ''price_spread_if0_if1'' = Inr [Some 9.8, Some 5.2]"
    "csv_col ex_if_frame ''price_spread_if0_if2'' = Inr [Some 25.4, Some 23.8]"
    "csv_col ex_if_frame ''price_spread_if0_if3'' = Inr [Some 39.9, Some 39.6]"
    "csv_col ex_if_frame ''price_spread_if1_if2'' = Inr [Some 15.6, Some 18.6]"
    "csv_col ex_if_frame ''price_spread_if1_if3'' = Inr [Some 30.1, Some 34.4]"
    "csv_col ex_if_frame ''price_spread_if2_if3'' = Inr [Some 14.5, Some 15.8]"
    by (simp_all add: csv_col_def ex_if_frame_def)
  have t: "test_column ex_table_world ex_if_frame ''price_spread_if0_if1'' =
             Inr (''if0-if1'', ex_result ''if0-if1'' 0.0076)"
    "test_column ex_table_world ex_if_frame ''price_spread_if0_if2'' =
             Inr (''if0-if2'', ex_result ''if0-if2'' 0.0076)"
    "test_column ex_table_world ex_if_frame ''price_spread_if0_if3'' =
             Inr (''if0-if3'', ex_result ''if0-if3'' 0.0076)"
    "test_column ex_table_world ex_if_frame ''price_spread_if1_if2'' =
             Inr (''if1-if2'', ex_result ''if1-if2'' 0.0076)"
    "test_column ex_table_world ex_if_frame ''price_spread_if1_if3'' =
             Inr (''if1-if3'', ex_result ''if1-if3'' 0.0076)"
    "test_column ex_table_world ex_if_frame ''price_spread_if2_if3'' =
             Inr (''if2-if3'', ex_result ''if2-if3'' 0.0076)"
    by (simp_all only: test_column_def ex_if_labels ex_if_tests ebind_Inr s a)
  show ?thesis
    by (simp add: analyze_spread_combinations_def ex_if_load ex_if_cols t ex_if_results_def)
qed

theorem pair_label_of_spread_column_witness:
  "CHR ''_'' \<notin> set ''if'' \<and>
   process_futures_data ex_read_csv ex_strptime ''if'' = Inr ex_table \<and>
   filter (\<lambda>c. startswith c ''price_spread'') (columns ex_table) =
     [''price_spread_if0_if1'', ''price_spread_if0_if2'', ''price_spread_if0_if3'',
      ''price_spread_if1_if2'', ''price_spread_if1_if3'', ''price_spread_if2_if3''] \<and>
   load_data ex_table_world ''if'' = Inr ex_if_frame \<and>
   spread_cols ex_if_frame =
     [''price_spread_if0_if1'', ''price_spread_if0_if2'', ''price_spread_if0_if3'',
      ''price_spread_if1_if2'', ''price_spread_if1_if3'', ''price_spread_if2_if3''] \<and>
   analyze_spread_combinations ex_table_world ''if'' = Inr ex_if_results \<and>
   map fst ex_if_results =
     [''if0-if1'', ''if0-if2'', ''if0-if3'', ''if1-if2'', ''if1-if3'', ''if2-if3''] \<and>
   list_all (\<lambda>(name, r). series_name r = name) ex_if_results \<and>
   (\<exists>table self'.
      generate_summary_table ex_table_world \<lparr>futures_types = [''if''], results = []\<rparr> =
        Inr (table, self') \<and>
      map row_pair table =
        [''if0-if1'', ''if0-if2'', ''if0-if3'', ''if1-if2'', ''if1-if3'', ''if2-if3''])"
proof -
  have h: "CHR ''_'' \<notin> set ''if''"
    by simp
  have n: "map (\<lambda>(i, j). ''price_spread_'' @ ''if'' @ str_nat i @ ''_'' @ ''if'' @ str_nat j)
             [(0, 1), (0, 2), (0, 3), (1, 2), (1, 3), (2, 3)] =
           [''price_spread_if0_if1'', ''price_spread_if0_if2'', ''price_spread_if0_if3'',
            ''price_spread_if1_if2'', ''price_spread_if1_if3'', ''price_spread_if2_if3'']"
    by (simp add: str_nat_small)
  have m: "map (\<lambda>(i, j). ''if'' @ str_nat i @ ''-'' @ ''if'' @ str_nat j)
             [(0, 1), (0, 2), (0, 3), (1, 2), (1, 3), (2, 3)] =
           [''if0-if1'', ''if0-if2'', ''if0-if3'', ''if1-if2'', ''if1-if3'', ''if2-if3'']"
    by (simp add: str_nat_small)
  note th = pair_label_of_spread_column [OF h, of ex_read_csv ex_strptime ex_table
      ex_table_world "''if''" ex_if_frame ex_if_results, unfolded n m]
  from th ex_run have 1: "filter (\<lambda>c. startswith c ''price_spread'') (columns ex_table) =
     [''price_spread_if0_if1'', ''price_spread_if0_if2'', ''price_spread_if0_if3'',
      ''price_spread_if1_if2'', ''price_spread_if1_if3'', ''price_spread_if2_if3'']"
    by blast
  from th ex_if_load ex_if_cols ex_if_family have 2: "map fst ex_if_results =
     [''if0-if1'', ''if0-if2'', ''if0-if3'', ''if1-if2'', ''if1-if3'', ''if2-if3'']"
    by blast
  from th ex_if_load ex_if_cols ex_if_family
  have 3: "list_all (\<lambda>(name, r). series_name r = name) ex_if_results"
    by blast
  from th ex_if_load ex_if_cols ex_if_family
  have 4: "\<exists>table self'.
      generate_summary_table ex_table_world \<lparr>futures_types = [''if''], results = []\<rparr> =
        Inr (table, self') \<and>
      map row_pair table =
        [''if0-if1'', ''if0-if2'', ''if0-if3'', ''if1-if2'', ''if1-if3'', ''if2-if3'']"
    by blast
  show ?thesis
    by (intro conjI) (rule h ex_run 1 ex_if_load ex_if_cols ex_if_family 2 3 4)+
qed


end
